theory Spec2Isabelle
  imports Complex_Main "HOL-Library.Multiset"
begin

text \<open>
  A shallow embedding of the watch-session continuity code of openanime-cli: the history
  store (\<open>utils/historyUtils.ts\<close>), the progress script that runs inside the player
  (\<open>mpv-progress.lua\<close>), the playback session controller (\<open>services/player.ts\<close>) and the
  playback flow of \<open>core/index.ts\<close>, with the parts of \<open>services/api.ts\<close> and
  \<open>utils/config.ts\<close> that they read. Files are explicit values, thrown errors are values of
  a sum type, console output is a list of lines, and everything that comes from outside
  (the catalog's answers, the clock, the user's answers, what the player reports) is an
  argument.
\<close>

section \<open>History store (historyUtils.ts)\<close>

text \<open>
  A \<open>WatchHistoryEntry\<close> as the TypeScript interface declares it. Numbers that the program
  only ever fills with integers are \<open>int\<close>; \<open>watchedAt\<close> is the \<open>Date\<close> as milliseconds
  since the epoch (what \<open>getTime()\<close> returns; invalid dates are outside the model).
\<close>

record WatchHistoryEntry =
  animeId :: string
  animeTitle :: string
  animeSlug :: string
  seasonNumber :: int
  episodeNumber :: int
  episodeTitle :: string
  fansubName :: string
  watchedAt :: int
  progress :: int
  timePos :: int
  duration :: int

text \<open>
  An entry as it sits in \<open>watch-history.json\<close>: the same object, except that \<open>timePos\<close> and
  \<open>duration\<close> may be absent (files written before these fields existed).
\<close>

record json_entry =
  animeId_j :: string
  animeTitle_j :: string
  animeSlug_j :: string
  seasonNumber_j :: int
  episodeNumber_j :: int
  episodeTitle_j :: string
  fansubName_j :: string
  watchedAt_j :: int
  progress_j :: int
  timePos_j :: "int option"
  duration_j :: "int option"

text \<open>
  The backing file: absent (\<open>None\<close>), or present with text that \<open>JSON.parse\<close> rejects
  (\<open>BadJson\<close>; a file that cannot be read behaves the same way), text that parses to
  something other than an array of objects (\<open>NotArray\<close>, on which \<open>history.map\<close> or its
  callback throws), or an array of entries. \<open>writable\<close> says whether \<open>fs.writeFileSync\<close> on
  the file succeeds.
\<close>

datatype json_history = BadJson | NotArray | Array "json_entry list"

record history_store =
  contents :: "json_history option"
  writable :: bool

datatype js_error = SyntaxError | TypeError

text \<open>\<open>x || 0\<close> on a field that is a number or missing.\<close>

definition or_zero :: "int option \<Rightarrow> int" where
  "or_zero v = (case v of None \<Rightarrow> 0 | Some n \<Rightarrow> n)"

text \<open>The callback of \<open>history.map\<close> in \<open>getWatchHistory\<close>.\<close>

definition processEntry :: "json_entry \<Rightarrow> WatchHistoryEntry" where
  "processEntry e =
     \<lparr>animeId = animeId_j e, animeTitle = animeTitle_j e, animeSlug = animeSlug_j e,
      seasonNumber = seasonNumber_j e, episodeNumber = episodeNumber_j e,
      episodeTitle = episodeTitle_j e, fansubName = fansubName_j e,
      watchedAt = watchedAt_j e, progress = progress_j e,
      timePos = or_zero (timePos_j e), duration = or_zero (duration_j e)\<rparr>"

text \<open>\<open>JSON.stringify\<close> of one entry: every field is written.\<close>

definition stringifyEntry :: "WatchHistoryEntry \<Rightarrow> json_entry" where
  "stringifyEntry e =
     \<lparr>animeId_j = animeId e, animeTitle_j = animeTitle e, animeSlug_j = animeSlug e,
      seasonNumber_j = seasonNumber e, episodeNumber_j = episodeNumber e,
      episodeTitle_j = episodeTitle e, fansubName_j = fansubName e,
      watchedAt_j = watchedAt e, progress_j = progress e,
      timePos_j = Some (timePos e), duration_j = Some (duration e)\<rparr>"

text \<open>
  \<open>xs.sort((a, b) => b.watchedAt.getTime() - a.watchedAt.getTime())\<close>: the engine's sort is
  stable, so it is the stable sort on the negated timestamp (newest first).
\<close>

definition sortNewestFirst :: "WatchHistoryEntry list \<Rightarrow> WatchHistoryEntry list" where
  "sortNewestFirst xs = sort_key (\<lambda>e. - watchedAt e) xs"

text \<open>\<open>xs.slice(0, n)\<close>; a negative \<open>n\<close> counts from the end.\<close>

definition slice0 :: "'a list \<Rightarrow> int \<Rightarrow> 'a list" where
  "slice0 xs n = (if n < 0 then take (nat (int (length xs) + n)) xs else take (nat n) xs)"

text \<open>The body of the \<open>try\<close> block of \<open>getWatchHistory\<close>: \<open>Inl\<close> is a thrown error.\<close>

definition getWatchHistory_try ::
  "json_history option \<Rightarrow> int option \<Rightarrow> js_error + WatchHistoryEntry list" where
  "getWatchHistory_try f limit =
     (case f of
        None \<Rightarrow> Inr []
      | Some BadJson \<Rightarrow> Inl SyntaxError
      | Some NotArray \<Rightarrow> Inl TypeError
      | Some (Array history) \<Rightarrow>
          (let processedHistory = sortNewestFirst (map processEntry history)
           in Inr (case limit of
                     None \<Rightarrow> processedHistory
                   | Some n \<Rightarrow> if n \<noteq> 0 then slice0 processedHistory n else processedHistory)))"

text \<open>\<open>getWatchHistory\<close> with its \<open>catch\<close>: the value returned and the lines sent to the console.\<close>

definition getWatchHistory_io ::
  "json_history option \<Rightarrow> int option \<Rightarrow> WatchHistoryEntry list \<times> string list" where
  "getWatchHistory_io f limit =
     (case getWatchHistory_try f limit of
        Inr history \<Rightarrow> (history, [])
      | Inl error \<Rightarrow> ([], [''Error loading watch history:'']))"

definition getWatchHistory :: "json_history option \<Rightarrow> int option \<Rightarrow> WatchHistoryEntry list" where
  "getWatchHistory f limit = fst (getWatchHistory_io f limit)"

text \<open>\<open>Array.prototype.findIndex\<close>: the first index whose element satisfies \<open>P\<close>, or \<open>-1\<close>.\<close>

fun findIndex :: "('a \<Rightarrow> bool) \<Rightarrow> 'a list \<Rightarrow> int" where
  "findIndex P [] = - 1"
| "findIndex P (x # xs) =
     (if P x then 0 else (let i = findIndex P xs in if i < 0 then - 1 else i + 1))"

text \<open>\<open>xs.splice(i, 1)\<close> for an index inside the array.\<close>

definition splice1 :: "'a list \<Rightarrow> nat \<Rightarrow> 'a list" where
  "splice1 xs i = take i xs @ drop (Suc i) xs"

definition sameEpisode :: "WatchHistoryEntry \<Rightarrow> WatchHistoryEntry \<Rightarrow> bool" where
  "sameEpisode entry h \<longleftrightarrow>
     animeId h = animeId entry \<and> seasonNumber h = seasonNumber entry \<and>
     episodeNumber h = episodeNumber entry"

text \<open>
  \<open>saveWatchHistory\<close>: the store afterwards and the console lines. A failing write is caught
  and logged, and leaves the file as it was.
\<close>

definition saveWatchHistory ::
  "WatchHistoryEntry \<Rightarrow> history_store \<Rightarrow> history_store \<times> string list" where
  "saveWatchHistory entry st =
     (let (history, logged) = getWatchHistory_io (contents st) None;
          existingIndex = findIndex (sameEpisode entry) history;
          history1 = (if existingIndex \<ge> 0 then splice1 history (nat existingIndex) else history);
          history2 = entry # history1;
          trimmedHistory = take 50 history2
      in if writable st
         then (st\<lparr>contents := Some (Array (map stringifyEntry trimmedHistory))\<rparr>,
               logged @ [''Saved to watch history''])
         else (st, logged @ [''Error saving watch history:'']))"





text \<open>The key of a record, the stored list, and a run of upserts.\<close>

definition entryKey :: "WatchHistoryEntry \<Rightarrow> string \<times> int \<times> int" where
  "entryKey e = (animeId e, seasonNumber e, episodeNumber e)"

definition listAll :: "history_store \<Rightarrow> WatchHistoryEntry list" where
  "listAll st = getWatchHistory (contents st) None"

definition upsertAll :: "WatchHistoryEntry list \<Rightarrow> history_store \<Rightarrow> history_store" where
  "upsertAll es st = fold (\<lambda>e s. fst (saveWatchHistory e s)) es st"

section \<open>Progress bridge (mpv-progress.lua)\<close>

text \<open>
  The numbers the player reports are Lua numbers; they are exact reals here, so
  \<open>math.floor\<close> is \<open>floor\<close> and the arithmetic does not round. \<open>live\<close> holds what
  \<open>mp.get_property_number(name, 0)\<close> returns for each property at one moment (0 when the
  property is unavailable) together with the clock (\<open>os.time()\<close>, seconds).
\<close>

record live =
  time_pos_prop :: real
  duration_prop :: real
  length_prop :: real
  percent_pos_prop :: real
  os_time :: int

text \<open>The table \<open>progress_data\<close> that the script builds; every number in it has been floored.\<close>

record progress_data =
  timestamp :: int
  time_pos :: int
  duration_pd :: int
  percent_pos :: int
  status :: string
  estimated :: bool

text \<open>
  The snapshot file \<open>temp_progress.json\<close>: absent, unparsable, or an object whose numeric
  fields a reader may find missing.
\<close>

record json_progress =
  timestamp_j :: int
  time_pos_j :: "int option"
  duration_pj :: "int option"
  percent_pos_j :: "int option"
  status_j :: string
  estimated_j :: bool

datatype json_snapshot = BadSnapshot | Snapshot json_progress

record progress_store =
  snapshot_file :: "json_snapshot option"
  snapshot_writable :: bool

definition format_json :: "progress_data \<Rightarrow> json_progress" where
  "format_json d =
     \<lparr>timestamp_j = timestamp d, time_pos_j = Some (time_pos d), duration_pj = Some (duration_pd d),
      percent_pos_j = Some (percent_pos d), status_j = status d, estimated_j = estimated d\<rparr>"

text \<open>
  The first part of \<open>write_progress\<close>: the values of \<open>time_pos\<close>, \<open>duration\<close> and
  \<open>percent_pos\<close> after the fallbacks, as they are passed on to \<open>update_history\<close>.
\<close>

definition progress_values :: "live \<Rightarrow> real \<times> real \<times> real" where
  "progress_values l =
     (let time_pos = time_pos_prop l;
          duration = duration_prop l;
          percent_pos = percent_pos_prop l;
          duration = (if duration = 0 then length_prop l else duration);
          percent_pos = (if percent_pos = 0 \<and> duration > 0 \<and> time_pos > 0
                         then (time_pos / duration) * 100 else percent_pos);
          percent_pos = (if duration = 0 \<and> time_pos > 0
                         then (let estimated_duration = 24 * 60
                               in min ((time_pos / estimated_duration) * 100) 99)
                         else percent_pos)
      in (time_pos, duration, percent_pos))"

definition write_progress_data :: "string \<Rightarrow> live \<Rightarrow> progress_data" where
  "write_progress_data st l =
     (let (time_pos, duration, percent_pos) = progress_values l
      in \<lparr>timestamp = os_time l,
          time_pos = \<lfloor>time_pos\<rfloor>,
          duration_pd = \<lfloor>duration\<rfloor>,
          percent_pos = \<lfloor>percent_pos\<rfloor>,
          status = st,
          estimated = (duration = 0 \<and> time_pos > 0)\<rparr>)"

text \<open>What the script was started with (\<open>--script-opts\<close>).\<close>

record script_opts =
  anime_id :: string
  anime_title :: string
  anime_slug :: string
  season_number :: int
  episode_number :: int
  episode_title :: string
  fansub_name :: string

text \<open>
  \<open>update_history\<close>: the script rewrites the history file itself. It reads the file as it
  is (no sorting, no defaults; a file that is missing or does not hold an array counts as
  an empty history), updates the first entry of the episode in place or puts a new one in
  front, and writes everything back. \<open>watchedAt\<close> is the clock in milliseconds.
\<close>

fun update_first :: "('a \<Rightarrow> bool) \<Rightarrow> ('a \<Rightarrow> 'a) \<Rightarrow> 'a list \<Rightarrow> ('a list) option" where
  "update_first P g [] = None"
| "update_first P g (x # xs) =
     (if P x then Some (g x # xs)
      else (case update_first P g xs of None \<Rightarrow> None | Some ys \<Rightarrow> Some (x # ys)))"

definition update_history :: "script_opts \<Rightarrow> int \<Rightarrow> real \<Rightarrow> real \<Rightarrow> real \<Rightarrow> history_store \<Rightarrow> history_store" where
  "update_history opts now time_pos0 duration0 percent_pos0 st =
     (if anime_id opts = [] then st
      else
        (let history = (case contents st of Some (Array js) \<Rightarrow> js | _ \<Rightarrow> []);
             updated = update_first
               (\<lambda>entry. animeId_j entry = anime_id opts \<and> seasonNumber_j entry = season_number opts \<and>
                         episodeNumber_j entry = episode_number opts)
               (\<lambda>entry. entry\<lparr>progress_j := \<lfloor>percent_pos0\<rfloor>, timePos_j := Some \<lfloor>time_pos0\<rfloor>,
                               duration_j := Some \<lfloor>duration0\<rfloor>, watchedAt_j := 1000 * now\<rparr>)
               history;
             history1 = (case updated of
                 Some h \<Rightarrow> h
               | None \<Rightarrow>
                   \<lparr>animeId_j = anime_id opts, animeTitle_j = anime_title opts,
                    animeSlug_j = anime_slug opts, seasonNumber_j = season_number opts,
                    episodeNumber_j = episode_number opts, episodeTitle_j = episode_title opts,
                    fansubName_j = fansub_name opts, watchedAt_j = 1000 * now,
                    progress_j = \<lfloor>percent_pos0\<rfloor>, timePos_j = Some \<lfloor>time_pos0\<rfloor>,
                    duration_j = Some \<lfloor>duration0\<rfloor>\<rparr> # history)
         in if writable st then st\<lparr>contents := Some (Array history1)\<rparr> else st))"

text \<open>
  The \<open>shutdown\<close> handler: the table it writes, given the live values and the snapshot file
  as it finds it.
\<close>

definition shutdown_data :: "live \<Rightarrow> json_snapshot option \<Rightarrow> progress_data" where
  "shutdown_data l existing_file =
     (let current_time = time_pos_prop l;
          current_duration = duration_prop l;
          current_percent = percent_pos_prop l;
          (current_time, current_duration, current_percent) =
            (if current_time = 0 \<or> current_duration = 0 then
               (case existing_file of
                  Some (Snapshot existing_data) \<Rightarrow>
                    (max current_time (of_int (or_zero (time_pos_j existing_data))),
                     max current_duration (of_int (or_zero (duration_pj existing_data))),
                     if current_percent = 0 then of_int (or_zero (percent_pos_j existing_data))
                     else current_percent)
                | _ \<Rightarrow> (current_time, current_duration, current_percent))
             else (current_time, current_duration, current_percent));
          current_percent = (if current_percent = 0 \<and> current_duration > 0 \<and> current_time > 0
                             then (current_time / current_duration) * 100 else current_percent)
      in \<lparr>timestamp = os_time l,
          time_pos = \<lfloor>current_time\<rfloor>,
          duration_pd = \<lfloor>current_duration\<rfloor>,
          percent_pos = \<lfloor>current_percent\<rfloor>,
          status = ''finished'',
          estimated = False\<rparr>)"

definition write_snapshot :: "progress_data \<Rightarrow> progress_store \<Rightarrow> progress_store" where
  "write_snapshot d ps =
     (if snapshot_writable ps then ps\<lparr>snapshot_file := Some (Snapshot (format_json d))\<rparr> else ps)"

section \<open>Playback session controller (player.ts)\<close>

record PlaybackProgress =
  progress_pb :: int
  timePos_pb :: int
  duration_pb :: int

text \<open>How the child process ended: its \<open>close\<close> event with the exit code, or an \<open>error\<close> event.\<close>

datatype mpv_exit = Closed int | SpawnError

text \<open>\<open>Math.round\<close>: halves go up.\<close>

definition js_round :: "real \<Rightarrow> int" where
  "js_round x = \<lfloor>x + 1 / 2\<rfloor>"

definition zeroProgress :: PlaybackProgress where
  "zeroProgress = \<lparr>progress_pb = 0, timePos_pb = 0, duration_pb = 0\<rparr>"

text \<open>The \<open>try\<close> block of the \<open>close\<close> handler, which reads the final snapshot.\<close>

definition readFinalProgress :: "json_snapshot option \<Rightarrow> js_error + PlaybackProgress" where
  "readFinalProgress f =
     (case f of
        None \<Rightarrow> Inr zeroProgress
      | Some BadSnapshot \<Rightarrow> Inl SyntaxError
      | Some (Snapshot progressData) \<Rightarrow>
          (let finalTimePos = js_round (of_int (or_zero (time_pos_j progressData)));
               finalDuration = js_round (of_int (or_zero (duration_pj progressData)));
               finalProgress =
                 (if finalDuration > 0 \<and> finalTimePos > 0
                  then js_round ((of_int finalTimePos / of_int finalDuration) * 100)
                  else js_round (of_int (or_zero (percent_pos_j progressData))))
           in Inr \<lparr>progress_pb = finalProgress, timePos_pb = finalTimePos,
                   duration_pb = finalDuration\<rparr>))"

text \<open>
  \<open>playVideo\<close>, after the player has run: \<open>mpv_found\<close> is the outcome of \<open>which mpv\<close>, and
  the file is the snapshot as the player left it.
\<close>

definition playVideo :: "bool \<Rightarrow> mpv_exit \<Rightarrow> json_snapshot option \<Rightarrow> PlaybackProgress" where
  "playVideo mpv_found ended f =
     (if \<not> mpv_found then zeroProgress
      else (case ended of
              SpawnError \<Rightarrow> zeroProgress
            | Closed code \<Rightarrow>
                (case readFinalProgress f of Inl error \<Rightarrow> zeroProgress | Inr result \<Rightarrow> result)))"

section \<open>Configuration (config.ts)\<close>

record AppConfig =
  defaultQuality :: string
  preferredPlayer :: string
  downloadPath :: string
  autoPlay :: bool
  autoPlayNextEpisode :: bool
  enableHistory :: bool
  enableDiscordRPC :: bool

definition DEFAULT_CONFIG :: AppConfig where
  "DEFAULT_CONFIG =
     \<lparr>defaultQuality = ''720p'', preferredPlayer = ''mpv'', downloadPath = ''./downloads'',
      autoPlay = False, autoPlayNextEpisode = True, enableHistory = True,
      enableDiscordRPC = True\<rparr>"

definition getConfig :: AppConfig where
  "getConfig = DEFAULT_CONFIG"

section \<open>Catalog (api.ts)\<close>

text \<open>
  The parts of the catalog's answers that the playback flow reads; \<open>files\<close> holds the
  resolution of each file of the episode. The two lookups that go to the network
  (\<open>getAnimeDetail\<close>, \<open>getEpisodeDetail\<close>) are functions of the environment, \<open>None\<close> being a
  failed lookup (the source catches the error and returns \<open>null\<close>).
\<close>

record Season =
  season_number_s :: int
  episode_count :: int
  hasEpisode :: bool

record AnimeDetail =
  id_a :: string
  english :: string
  turkish :: string
  romaji :: string
  seasons :: "Season list"

record Fansub =
  id_f :: string
  name_f :: string

record EpisodeData =
  fansub :: Fansub
  files :: "int list"
  hasNextEpisode :: bool

record EpisodeDetail =
  episodeData :: EpisodeData
  fansubs :: "Fansub list"

record Episode =
  title :: string
  number :: int
  url :: string
  seasonNumber_e :: int
  episodeNumber_e :: int

record catalog =
  getAnimeDetail :: "string \<Rightarrow> AnimeDetail option"
  getEpisodeDetail :: "string \<Rightarrow> int \<Rightarrow> int \<Rightarrow> EpisodeDetail option"

text \<open>A whole number inside a template string.\<close>

definition digit :: "nat \<Rightarrow> char" where
  "digit n = ''0123456789'' ! n"

function decimal_nat :: "nat \<Rightarrow> string" where
  "decimal_nat n = (if n < 10 then [digit n] else decimal_nat (n div 10) @ [digit (n mod 10)])"
  by pat_completeness auto
termination
  by (relation "measure id") auto

declare decimal_nat.simps [simp del]

definition decimal :: "int \<Rightarrow> string" where
  "decimal i = (if i < 0 then ''-'' @ decimal_nat (nat (- i)) else decimal_nat (nat i))"

text \<open>\<open>a || b\<close> on strings: the first one that is not empty.\<close>

definition or_str :: "string \<Rightarrow> string \<Rightarrow> string" where
  "or_str a b = (if a \<noteq> [] then a else b)"

text \<open>The object that the loop of \<open>getAnimeEpisodes\<close> pushes for episode \<open>i\<close>.\<close>

definition listedEpisode :: "string \<Rightarrow> int \<Rightarrow> int \<Rightarrow> Episode" where
  "listedEpisode slug seasonNumber0 i =
     \<lparr>title = ''Episode '' @ decimal i, number = i,
      url = ''https://openani.me/anime/'' @ slug @ ''/'' @ decimal seasonNumber0 @ ''/'' @ decimal i,
      seasonNumber_e = seasonNumber0, episodeNumber_e = i\<rparr>"

definition getAnimeEpisodes :: "catalog \<Rightarrow> string \<Rightarrow> int \<Rightarrow> Episode list" where
  "getAnimeEpisodes cat slug seasonNumber0 =
     (case getAnimeDetail cat slug of
        None \<Rightarrow> []
      | Some animeDetail \<Rightarrow>
          (case find (\<lambda>s. season_number_s s = seasonNumber0) (seasons animeDetail) of
             None \<Rightarrow> []
           | Some season \<Rightarrow>
               if \<not> hasEpisode season then []
               else map (listedEpisode slug seasonNumber0) [1..episode_count season]))"

definition getVideoUrl :: "catalog \<Rightarrow> string \<Rightarrow> int \<Rightarrow> int \<Rightarrow> string \<Rightarrow> string option" where
  "getVideoUrl cat slug seasonNumber0 episodeNumber0 fansubId =
     (case getEpisodeDetail cat slug seasonNumber0 episodeNumber0 of
        None \<Rightarrow> None
      | Some episodeDetail \<Rightarrow>
          (let targetFansubId = id_f (fansub (episodeData episodeDetail));
               targetFansubId =
                 (if fansubId \<noteq> [] then
                    (case find (\<lambda>f. id_f f = fansubId) (fansubs episodeDetail) of
                       Some f \<Rightarrow> fansubId
                     | None \<Rightarrow> targetFansubId)
                  else targetFansubId);
               files0 = files (episodeData episodeDetail)
           in if length files0 = 0 then None
              else (let sortedFiles = sort_key (\<lambda>r. - r) files0;
                        bestFile = hd sortedFiles
                    in Some (''https://do7---ha-k8y3jyfa-8gcx.zyapbot.eu.org'' @ ''/animes/'' @ slug @
                             ''/'' @ decimal seasonNumber0 @ ''/'' @ decimal episodeNumber0 @ ''-'' @
                             targetFansubId @ ''-'' @ decimal bestFile @ ''p.mp4?big=1''))))"

section \<open>Playback flow (core/index.ts)\<close>

text \<open>
  The options handed to \<open>playVideo\<close>: the seven fields of episode information are set
  together, and only when the anime's details are known.
\<close>

record PlaybackOptions =
  startTime :: "int option"
  episodeInfo :: "script_opts option"

text \<open>
  One run of the external player, as the environment supplies it: whether \<open>which mpv\<close>
  finds it, the calls of \<open>write_progress\<close> its timers and events make (status and live
  values), the live values at shutdown, and how the process ends.
\<close>

record mpv_session =
  which_mpv :: bool
  reports :: "(string \<times> live) list"
  at_shutdown :: live
  exit_event :: mpv_exit

datatype event =
    Prompted string
  | PlayVideo string PlaybackOptions
  | Said string

text \<open>
  The state the flow works on: both files, the answers the user will still give (one per
  prompt; \<open>None\<close> is a cancelled prompt and so is every prompt after the last answer), how
  many times the clock has been read and the player launched, and what happened so far.
\<close>

record world =
  store :: history_store
  snapshot :: progress_store
  answers :: "nat option list"
  dates :: nat
  sessions :: nat
  events :: "event list"

text \<open>
  What the flow is run against: the catalog, the configuration that \<open>getConfig()\<close> returns
  (in the source always \<open>DEFAULT_CONFIG\<close>; it is an argument here so that properties of other
  configurations can be stated), the clock (the \<open>k\<close>-th reading of \<open>new Date()\<close>) and the
  \<open>k\<close>-th run of the player.
\<close>

record env =
  catalog_of :: catalog
  config :: AppConfig
  clock :: "nat \<Rightarrow> int"
  player :: "nat \<Rightarrow> mpv_session"

definition say :: "string \<Rightarrow> world \<Rightarrow> world" where
  "say line w = w\<lparr>events := events w @ [Said line]\<rparr>"

text \<open>A \<open>select\<close> prompt: the value of the chosen entry, or nothing when cancelled.\<close>

definition prompts_select :: "string \<Rightarrow> 'a list \<Rightarrow> world \<Rightarrow> 'a option \<times> world" where
  "prompts_select message choices w =
     (let w1 = w\<lparr>events := events w @ [Prompted message]\<rparr>
      in case answers w of
           [] \<Rightarrow> (None, w1)
         | a # rest \<Rightarrow>
             ((case a of None \<Rightarrow> None
               | Some i \<Rightarrow> if i < length choices then Some (choices ! i) else None),
              w1\<lparr>answers := rest\<rparr>))"

text \<open>
  The object \<open>historyEntry\<close> that \<open>saveToHistory\<close> builds, given the catalog's answers and
  the time.
\<close>

definition historyEntry ::
  "AnimeDetail \<Rightarrow> EpisodeDetail \<Rightarrow> string \<Rightarrow> Episode \<Rightarrow> string \<Rightarrow> int \<Rightarrow> int \<Rightarrow> int \<Rightarrow> int \<Rightarrow>
   WatchHistoryEntry" where
  "historyEntry animeDetail episodeDetail slug episode fansubId now progress0 timePos0 duration0 =
     (let fansub0 = find (\<lambda>f. id_f f = fansubId) (fansubs episodeDetail)
      in \<lparr>animeId = id_a animeDetail,
          animeTitle = or_str (english animeDetail) (or_str (turkish animeDetail) (romaji animeDetail)),
          animeSlug = slug,
          seasonNumber = seasonNumber_e episode,
          episodeNumber = episodeNumber_e episode,
          episodeTitle = title episode,
          fansubName = or_str (case fansub0 of None \<Rightarrow> [] | Some f \<Rightarrow> name_f f) ''Unknown'',
          watchedAt = now,
          progress = max 0 (min 100 progress0),
          timePos = max 0 timePos0,
          duration = max 0 duration0\<rparr>)"

text \<open>\<open>saveToHistory\<close>; \<open>new Date()\<close> reads the clock.\<close>

definition saveToHistory ::
  "env \<Rightarrow> string \<Rightarrow> Episode \<Rightarrow> string \<Rightarrow> int \<Rightarrow> int \<Rightarrow> int \<Rightarrow> world \<Rightarrow> world" where
  "saveToHistory e slug episode fansubId progress0 timePos0 duration0 w =
     (case getAnimeDetail (catalog_of e) slug of
        None \<Rightarrow> w
      | Some animeDetail \<Rightarrow>
          (case getEpisodeDetail (catalog_of e) slug (seasonNumber_e episode) (episodeNumber_e episode) of
             None \<Rightarrow> w
           | Some episodeDetail \<Rightarrow>
               (let (st, logged) =
                      saveWatchHistory
                        (historyEntry animeDetail episodeDetail slug episode fansubId
                           (clock e (dates w)) progress0 timePos0 duration0)
                        (store w)
                in w\<lparr>store := st, dates := Suc (dates w),
                      events := events w @ map Said logged @
                                [Said ''Saved to watch history with progress'']\<rparr>)))"

text \<open>The script during one run of the player, then its \<open>shutdown\<close> handler.\<close>

definition write_progress :: "script_opts \<Rightarrow> string \<times> live \<Rightarrow> world \<Rightarrow> world" where
  "write_progress opts report w =
     (let (st, l) = report;
          (time_pos0, duration0, percent_pos0) = progress_values l
      in w\<lparr>snapshot := write_snapshot (write_progress_data st l) (snapshot w),
            store := update_history opts (os_time l) time_pos0 duration0 percent_pos0 (store w)\<rparr>)"

definition on_shutdown :: "live \<Rightarrow> world \<Rightarrow> world" where
  "on_shutdown l w =
     w\<lparr>snapshot := write_snapshot (shutdown_data l (snapshot_file (snapshot w))) (snapshot w)\<rparr>"

definition run_script :: "script_opts \<Rightarrow> mpv_session \<Rightarrow> world \<Rightarrow> world" where
  "run_script opts s w = on_shutdown (at_shutdown s) (fold (write_progress opts) (reports s) w)"

definition scriptOpts :: "PlaybackOptions \<Rightarrow> script_opts" where
  "scriptOpts options =
     (case episodeInfo options of
        None \<Rightarrow> \<lparr>anime_id = [], anime_title = [], anime_slug = [], season_number = 0,
                  episode_number = 0, episode_title = [], fansub_name = []\<rparr>
      | Some info \<Rightarrow> info)"

text \<open>\<open>playVideo\<close> as the flow calls it: the next run of the player, then the reading of its result.\<close>

definition playVideo_io :: "env \<Rightarrow> string \<Rightarrow> PlaybackOptions \<Rightarrow> world \<Rightarrow> PlaybackProgress \<times> world" where
  "playVideo_io e url0 options w =
     (let s = player e (sessions w);
          w1 = w\<lparr>sessions := Suc (sessions w), events := events w @ [PlayVideo url0 options]\<rparr>;
          w2 = (if which_mpv s \<and> exit_event s \<noteq> SpawnError
                then run_script (scriptOpts options) s w1 else w1)
      in (playVideo (which_mpv s) (exit_event s) (snapshot_file (snapshot w2)), w2))"

text \<open>
  The calls the flow's functions end with. \<open>handleDownload\<close> and the exit of the process
  are where this model stops.
\<close>

datatype call =
    EpisodeSelection string Episode "int option"
  | VideoPlayback string Episode string "int option"
  | Download string Episode string
  | ProcessExit

text \<open>
  The end of the \<open>play\<close> case of \<open>handleVideoPlayback\<close>: what follows the final history
  update.
\<close>

definition autoPlayNext ::
  "env \<Rightarrow> string \<Rightarrow> Episode \<Rightarrow> PlaybackProgress \<Rightarrow> EpisodeDetail option \<Rightarrow> world \<Rightarrow> world \<times> call option" where
  "autoPlayNext e slug episode playbackResult episodeDetail w =
     (let config0 = config e
      in if autoPlayNextEpisode config0 \<and> progress_pb playbackResult \<ge> 85 \<and>
            (case episodeDetail of None \<Rightarrow> False | Some d \<Rightarrow> hasNextEpisode (episodeData d))
         then
           (let w1 = say ''Episode completed! Moving to next episode...'' w;
                nextEpisodeNumber = episodeNumber_e episode + 1;
                episodes = getAnimeEpisodes (catalog_of e) slug (seasonNumber_e episode);
                nextEpisode = find (\<lambda>x. episodeNumber_e x = nextEpisodeNumber) episodes
            in case nextEpisode of
                 Some n \<Rightarrow> (say (''Automatically playing next episode: '' @ title n) w1,
                            Some (EpisodeSelection slug n None))
               | None \<Rightarrow> (say ''Could not find next episode.'' w1, None))
         else (w, None))"

definition handleVideoPlayback ::
  "env \<Rightarrow> string \<Rightarrow> Episode \<Rightarrow> string \<Rightarrow> int option \<Rightarrow> world \<Rightarrow> world \<times> call option" where
  "handleVideoPlayback e slug episode fansubId startTime0 w =
     (case getVideoUrl (catalog_of e) slug (seasonNumber_e episode) (episodeNumber_e episode) fansubId of
        None \<Rightarrow> (say ''Could not get video URL.'' w, None)
      | Some videoUrl \<Rightarrow>
          (let animeDetail = getAnimeDetail (catalog_of e) slug;
               episodeDetail = getEpisodeDetail (catalog_of e) slug
                                 (seasonNumber_e episode) (episodeNumber_e episode);
               fansub0 = (case episodeDetail of None \<Rightarrow> None
                          | Some d \<Rightarrow> find (\<lambda>f. id_f f = fansubId) (fansubs d));
               (playChoice, w1) = prompts_select ''What would you like to do?''
                                    [''play'', ''copy'', ''download'', ''browser''] w
           in case playChoice of
                None \<Rightarrow> (w1, None)
              | Some action \<Rightarrow>
                  if action = ''play'' then
                    (let playOptions =
                           \<lparr>startTime = (case startTime0 of None \<Rightarrow> None
                                          | Some t \<Rightarrow> if t \<noteq> 0 then Some t else None),
                            episodeInfo =
                              (case animeDetail of
                                 None \<Rightarrow> None
                               | Some a \<Rightarrow>
                                   Some \<lparr>anime_id = id_a a,
                                         anime_title = or_str (english a) (or_str (turkish a) (romaji a)),
                                         anime_slug = slug,
                                         season_number = seasonNumber_e episode,
                                         episode_number = episodeNumber_e episode,
                                         episode_title = title episode,
                                         fansub_name = or_str (case fansub0 of None \<Rightarrow> []
                                                               | Some f \<Rightarrow> name_f f) ''Unknown''\<rparr>)\<rparr>;
                         w2 = saveToHistory e slug episode fansubId 0 0 0 w1;
                         (playbackResult, w3) = playVideo_io e videoUrl playOptions w2;
                         w4 = saveToHistory e slug episode fansubId (progress_pb playbackResult)
                                (timePos_pb playbackResult) (duration_pb playbackResult) w3
                     in autoPlayNext e slug episode playbackResult episodeDetail w4)
                  else if action = ''copy'' then
                    (saveToHistory e slug episode fansubId 100 0 0
                       (say ''Copy the URL above to play in your preferred player.'' w1), None)
                  else if action = ''download'' then (w1, Some (Download slug episode videoUrl))
                  else (say ''Opened in default browser'' w1, Some ProcessExit)))"

definition handleEpisodeSelection ::
  "env \<Rightarrow> string \<Rightarrow> Episode \<Rightarrow> int option \<Rightarrow> world \<Rightarrow> world \<times> call option" where
  "handleEpisodeSelection e slug episode startTime0 w =
     (case getEpisodeDetail (catalog_of e) slug (seasonNumber_e episode) (episodeNumber_e episode) of
        None \<Rightarrow> (say ''Could not get episode details.'' w, None)
      | Some episodeDetail \<Rightarrow>
          if length (fansubs episodeDetail) > 1 then
            (let (fansubResponse, w1) =
                   prompts_select ''Select a fansub:'' (map id_f (fansubs episodeDetail)) w
             in case fansubResponse of
                  None \<Rightarrow> (w1, None)
                | Some fansubId \<Rightarrow>
                    if fansubId \<noteq> [] then (w1, Some (VideoPlayback slug episode fansubId startTime0))
                    else (w1, None))
          else if length (fansubs episodeDetail) = 1 then
            (say (''Using fansub: '' @ name_f (fansubs episodeDetail ! 0)) w,
             Some (VideoPlayback slug episode (id_f (fansubs episodeDetail ! 0)) startTime0))
          else (say ''No fansubs available for this episode.'' w, None))"



section \<open>Auxiliary functions of the proofs\<close>

text \<open>
  \<open>removeFirst\<close> is what \<open>findIndex\<close> followed by \<open>splice\<close> amounts to, \<open>withoutExisting\<close>
  its use on the key of an entry, and \<open>firstPerAnime\<close> what the \<open>Map\<close> of
  \<open>getContinueWatchingSuggestions\<close> collects.
\<close>

fun removeFirst :: "('a \<Rightarrow> bool) \<Rightarrow> 'a list \<Rightarrow> 'a list" where
  "removeFirst P [] = []"
| "removeFirst P (x # xs) = (if P x then xs else x # removeFirst P xs)"

definition withoutExisting :: "WatchHistoryEntry \<Rightarrow> WatchHistoryEntry list \<Rightarrow> WatchHistoryEntry list" where
  "withoutExisting entry hs = removeFirst (\<lambda>h. entryKey h = entryKey entry) hs"


text \<open>
  The key of a stored entry, and the invariant of the flow: the records of the history have
  pairwise different keys.
\<close>

definition jsonKey :: "json_entry \<Rightarrow> string \<times> int \<times> int" where
  "jsonKey j = (animeId_j j, seasonNumber_j j, episodeNumber_j j)"

definition keysDistinct :: "world \<Rightarrow> bool" where
  "keysDistinct w \<longleftrightarrow> distinct (map entryKey (listAll (store w)))"

section \<open>Sample data\<close>

text \<open>Concrete stores, snapshots, catalogs and sessions on which the theorems are instantiated.\<close>

definition sampleEntry :: "string \<Rightarrow> int \<Rightarrow> int \<Rightarrow> int \<Rightarrow> int \<Rightarrow> WatchHistoryEntry" where
  "sampleEntry a s e t p =
     \<lparr>animeId = a, animeTitle = ''Title'', animeSlug = ''slug'', seasonNumber = s,
      episodeNumber = e, episodeTitle = ''Episode'', fansubName = ''Unknown'',
      watchedAt = t, progress = p, timePos = 0, duration = 0\<rparr>"

definition emptyStore :: history_store where
  "emptyStore = \<lparr>contents = None, writable = True\<rparr>"

definition fullStore :: history_store where
  "fullStore = \<lparr>contents = Some (Array (map (\<lambda>i. stringifyEntry (sampleEntry ''A'' 1 (int i) (int i) 0)) [1..<51])),
                 writable = True\<rparr>"


definition sampleLive :: "real \<Rightarrow> real \<Rightarrow> real \<Rightarrow> live" where
  "sampleLive t d p = \<lparr>time_pos_prop = t, duration_prop = d, length_prop = 0, percent_pos_prop = p, os_time = 0\<rparr>"

definition sampleSnapshot :: "int \<Rightarrow> int \<Rightarrow> int \<Rightarrow> string \<Rightarrow> json_progress" where
  "sampleSnapshot t d p st = \<lparr>timestamp_j = 0, time_pos_j = Some t, duration_pj = Some d,
     percent_pos_j = Some p, status_j = st, estimated_j = False\<rparr>"

definition sampleAnime :: AnimeDetail where
  "sampleAnime = \<lparr>id_a = ''A'', english = ''Title'', turkish = [], romaji = [],
                   seasons = [\<lparr>season_number_s = 1, episode_count = 12, hasEpisode = True\<rparr>]\<rparr>"

definition sampleCatalog :: "bool \<Rightarrow> catalog" where
  "sampleCatalog hasNext =
     \<lparr>getAnimeDetail = (\<lambda>slug. if slug = ''slug'' then Some sampleAnime else None),
      getEpisodeDetail = (\<lambda>slug s n. if slug = ''slug''
          then Some \<lparr>episodeData = \<lparr>fansub = \<lparr>id_f = ''f1'', name_f = ''Subs''\<rparr>,
                                     files = [720, 1080], hasNextEpisode = hasNext\<rparr>,
                     fansubs = [\<lparr>id_f = ''f1'', name_f = ''Subs''\<rparr>]\<rparr>
          else None)\<rparr>"

definition sampleEnv :: "bool \<Rightarrow> AppConfig \<Rightarrow> mpv_session \<Rightarrow> env" where
  "sampleEnv hasNext cfg s =
     \<lparr>catalog_of = sampleCatalog hasNext, config = cfg, clock = (\<lambda>n. 1000 + int n),
      player = (\<lambda>n. s)\<rparr>"

definition sampleWorld :: "history_store \<Rightarrow> nat option list \<Rightarrow> world" where
  "sampleWorld st ans =
     \<lparr>store = st, snapshot = \<lparr>snapshot_file = None, snapshot_writable = True\<rparr>,
      answers = ans, dates = 0, sessions = 0, events = []\<rparr>"

definition noPlayer :: mpv_session where
  "noPlayer = \<lparr>which_mpv = False, reports = [], at_shutdown = sampleLive 0 0 0,
               exit_event = Closed 0\<rparr>"

definition watchedTo :: "real \<Rightarrow> mpv_session" where
  "watchedTo t = \<lparr>which_mpv = True, reports = [(''playing'', sampleLive t 1440 0)],
                  at_shutdown = sampleLive 0 0 0, exit_event = Closed 0\<rparr>"

definition seekBack :: mpv_session where
  "seekBack = \<lparr>which_mpv = True, reports = [(''playing'', sampleLive 600 1440 0)],
                at_shutdown = sampleLive 100 1440 0, exit_event = Closed 0\<rparr>"

definition noInfo :: script_opts where
  "noInfo = scriptOpts \<lparr>startTime = None, episodeInfo = None\<rparr>"

definition sampleResult :: "int \<Rightarrow> PlaybackProgress" where
  "sampleResult p = \<lparr>progress_pb = p, timePos_pb = 0, duration_pb = 0\<rparr>"

definition sampleEpisode :: "int \<Rightarrow> Episode" where
  "sampleEpisode n = listedEpisode ''slug'' 1 n"

definition partialStore :: history_store where
  "partialStore = \<lparr>contents = Some (Array [stringifyEntry (sampleEntry ''A'' 1 1 500 40)]),
                   writable = True\<rparr>"

section \<open>Proofs: the history store\<close>

lemma processEntry_stringifyEntry: "processEntry (stringifyEntry e) = e"
  by (simp add: processEntry_def stringifyEntry_def or_zero_def)

lemma map_process_stringify: "map processEntry (map stringifyEntry es) = es"
  by (induction es) (simp_all add: processEntry_stringifyEntry)

lemma getWatchHistory_None [simp]: "getWatchHistory None limit = []"
  by (simp add: getWatchHistory_def getWatchHistory_io_def getWatchHistory_try_def)

lemma getWatchHistory_Array_all:
  "getWatchHistory (Some (Array js)) None = sortNewestFirst (map processEntry js)"
  by (simp add: getWatchHistory_def getWatchHistory_io_def getWatchHistory_try_def)

lemma getWatchHistory_stored:
  "getWatchHistory (Some (Array (map stringifyEntry es))) None = sortNewestFirst es"
  by (simp add: getWatchHistory_Array_all o_def processEntry_stringifyEntry)

lemma fst_getWatchHistory_io: "fst (getWatchHistory_io f limit) = getWatchHistory f limit"
  by (simp add: getWatchHistory_def)

lemma set_sortNewestFirst [simp]: "set (sortNewestFirst xs) = set xs"
  by (simp add: sortNewestFirst_def)

lemma length_sortNewestFirst [simp]: "length (sortNewestFirst xs) = length xs"
  by (simp add: sortNewestFirst_def)

lemma mset_sortNewestFirst [simp]: "mset (sortNewestFirst xs) = mset xs"
  by (simp add: sortNewestFirst_def)

lemma filter_sortNewestFirst: "filter P (sortNewestFirst xs) = sortNewestFirst (filter P xs)"
  by (simp add: sortNewestFirst_def filter_sort)

lemma distinct_keys_sortNewestFirst:
  "distinct (map entryKey (sortNewestFirst xs)) = distinct (map entryKey xs)"
proof -
  have "mset (map entryKey (sortNewestFirst xs)) = mset (map entryKey xs)"
    by simp
  then show ?thesis by (rule mset_eq_imp_distinct_iff)
qed

lemma newest_first_sorted:
  "sorted_wrt (\<lambda>a b. watchedAt b \<le> watchedAt a) (sortNewestFirst xs)"
proof -
  have "sorted (map (\<lambda>e. - watchedAt e) (sortNewestFirst xs))"
    by (simp add: sortNewestFirst_def)
  then show ?thesis
    by (simp add: sorted_map sorted_wrt_iff_nth_less)
qed

lemma sortNewestFirst_idem:
  "sortNewestFirst (sortNewestFirst xs) = sortNewestFirst xs"
  by (simp add: sortNewestFirst_def sort_key_id_if_sorted)

lemma last_is_oldest:
  assumes "sorted_wrt (\<lambda>a b. watchedAt b \<le> watchedAt a) xs" "h \<in> set xs"
  shows "watchedAt (last xs) \<le> watchedAt h"
  using assms
proof (induction xs)
  case Nil then show ?case by simp
next
  case (Cons x xs)
  then show ?case by (cases "xs = []") auto
qed

text \<open>findIndex and splice\<close>

lemma findIndex_range: "findIndex P xs = - 1 \<or> (0 \<le> findIndex P xs \<and> findIndex P xs < int (length xs))"
  by (induction xs) (auto simp: Let_def)

lemma findIndex_neg_iff: "findIndex P xs < 0 \<longleftrightarrow> (\<forall>x\<in>set xs. \<not> P x)"
  by (induction xs) (use findIndex_range in \<open>auto simp: Let_def\<close>)

lemma splice1_findIndex:
  "0 \<le> findIndex P xs \<Longrightarrow> splice1 xs (nat (findIndex P xs)) = removeFirst P xs"
proof (induction xs)
  case Nil then show ?case by simp
next
  case (Cons x xs)
  show ?case
  proof (cases "P x")
    case True then show ?thesis by (simp add: splice1_def)
  next
    case False
    with Cons.prems have nn: "0 \<le> findIndex P xs"
      by (auto simp: Let_def split: if_splits)
    then have "nat (findIndex P xs + 1) = Suc (nat (findIndex P xs))" by simp
    with False nn Cons.IH show ?thesis
      by (simp add: splice1_def Let_def)
  qed
qed

lemma removeFirst_subset: "set (removeFirst P xs) \<subseteq> set xs"
  by (induction xs) auto

lemma length_removeFirst:
  "length (removeFirst P xs) = (if \<exists>x\<in>set xs. P x then length xs - 1 else length xs)"
  by (induction xs) (auto dest!: length_pos_if_in_set)

lemma removeFirst_none: "\<forall>x\<in>set xs. \<not> P x \<Longrightarrow> removeFirst P xs = xs"
  by (induction xs) auto

lemma distinct_map_removeFirst:
  "distinct (map k xs) \<Longrightarrow> distinct (map k (removeFirst P xs))"
proof (induction xs)
  case Nil then show ?case by simp
next
  case (Cons x xs)
  then show ?case using removeFirst_subset [of P xs] by auto
qed

lemma removeFirst_key_gone:
  "distinct (map k xs) \<Longrightarrow> y \<in> set (removeFirst (\<lambda>x. k x = c) xs) \<Longrightarrow> k y \<noteq> c"
proof (induction xs)
  case Nil then show ?case by simp
next
  case (Cons x xs)
  then show ?case by (auto split: if_splits simp: image_iff)
qed

lemma sameEpisode_key: "sameEpisode entry h \<longleftrightarrow> entryKey h = entryKey entry"
  by (auto simp: sameEpisode_def entryKey_def)

text \<open>what saveWatchHistory writes\<close>

lemma saveWatchHistory_writable:
  assumes "writable st"
  shows "contents (fst (saveWatchHistory entry st)) =
           Some (Array (map stringifyEntry (take 50 (entry # withoutExisting entry (listAll st)))))"
proof -
  let ?h = "getWatchHistory (contents st) None"
  let ?P = "sameEpisode entry"
  have P: "?P = (\<lambda>h. entryKey h = entryKey entry)"
    by (rule ext) (simp add: sameEpisode_key)
  have w: "withoutExisting entry (listAll st) = removeFirst ?P ?h"
    by (simp add: withoutExisting_def listAll_def P)
  have "(if 0 \<le> findIndex ?P ?h then splice1 ?h (nat (findIndex ?P ?h)) else ?h) = removeFirst ?P ?h"
  proof (cases "0 \<le> findIndex ?P ?h")
    case True then show ?thesis by (simp add: splice1_findIndex)
  next
    case False
    then have "\<forall>x\<in>set ?h. \<not> ?P x" using findIndex_neg_iff [of ?P ?h] by simp
    then have "removeFirst ?P ?h = ?h" by (rule removeFirst_none)
    with False show ?thesis by simp
  qed
  then show ?thesis unfolding w using assms
    by (auto simp: saveWatchHistory_def Let_def split_beta fst_getWatchHistory_io
        split: if_splits)
qed

lemma saveWatchHistory_readonly:
  "\<not> writable st \<Longrightarrow> fst (saveWatchHistory entry st) = st"
  by (simp add: saveWatchHistory_def Let_def split_beta)

lemma saveWatchHistory_writable_flag:
  "writable (fst (saveWatchHistory entry st)) = writable st"
  by (simp add: saveWatchHistory_def Let_def split_beta)

lemma listAll_after_save:
  assumes "writable st"
  shows "listAll (fst (saveWatchHistory entry st)) =
           sortNewestFirst (take 50 (entry # withoutExisting entry (listAll st)))"
proof -
  have "listAll (fst (saveWatchHistory entry st)) =
          getWatchHistory (contents (fst (saveWatchHistory entry st))) None"
    by (simp only: listAll_def)
  also have "\<dots> = sortNewestFirst (take 50 (entry # withoutExisting entry (listAll st)))"
    by (simp only: saveWatchHistory_writable [OF assms] getWatchHistory_stored)
  finally show ?thesis .
qed

lemma distinct_keys_withoutExisting:
  "distinct (map entryKey hs) \<Longrightarrow> distinct (map entryKey (entry # withoutExisting entry hs))"
proof -
  assume d: "distinct (map entryKey hs)"
  have "entryKey entry \<notin> entryKey ` set (withoutExisting entry hs)"
  proof
    assume "entryKey entry \<in> entryKey ` set (withoutExisting entry hs)"
    then obtain y where "y \<in> set (withoutExisting entry hs)" "entryKey y = entryKey entry"
      by (auto simp: image_iff)
    then show False
      using removeFirst_key_gone [OF d, of y "entryKey entry"]
      by (simp add: withoutExisting_def)
  qed
  then show ?thesis
    using d by (simp add: withoutExisting_def distinct_map_removeFirst)
qed

lemma distinct_map_take: "distinct (map k xs) \<Longrightarrow> distinct (map k (take n xs))"
  by (simp add: take_map [symmetric])

lemma save_keeps_distinct:
  assumes "distinct (map entryKey (listAll st))"
  shows "distinct (map entryKey (listAll (fst (saveWatchHistory entry st))))"
proof (cases "writable st")
  case True
  then show ?thesis
    using distinct_map_take [OF distinct_keys_withoutExisting [OF assms, of entry], of 50]
    by (simp only: listAll_after_save distinct_keys_sortNewestFirst)
next
  case False
  then show ?thesis using assms by (simp add: saveWatchHistory_readonly)
qed

lemma upsertAll_keeps_distinct:
  "distinct (map entryKey (listAll st)) \<Longrightarrow> distinct (map entryKey (listAll (upsertAll es st)))"
  unfolding upsertAll_def
  by (induction es arbitrary: st) (simp_all add: save_keeps_distinct)

lemma upsertAll_writable: "writable (upsertAll es st) = writable st"
  unfolding upsertAll_def
  by (induction es arbitrary: st) (simp_all add: saveWatchHistory_writable_flag)

lemma upsertAll_snoc: "upsertAll (es @ [e]) st = fst (saveWatchHistory e (upsertAll es st))"
  by (simp add: upsertAll_def)

lemma save_exactly_one:
  assumes "writable st" "distinct (map entryKey (listAll st))"
  shows "filter (\<lambda>h. entryKey h = entryKey entry) (listAll (fst (saveWatchHistory entry st))) = [entry]"
proof -
  let ?P = "\<lambda>h. entryKey h = entryKey entry"
  have gone: "filter ?P (withoutExisting entry (listAll st)) = []"
    using removeFirst_key_gone [OF assms(2), of _ "entryKey entry"]
    by (auto simp: withoutExisting_def filter_empty_conv)
  have "filter ?P (take 49 (withoutExisting entry (listAll st))) = []"
    using gone by (auto simp: filter_empty_conv dest: in_set_takeD)
  then have one: "filter ?P (take 50 (entry # withoutExisting entry (listAll st))) = [entry]"
    by (simp add: take_Cons')
  have "filter ?P (listAll (fst (saveWatchHistory entry st))) =
          sortNewestFirst (filter ?P (take 50 (entry # withoutExisting entry (listAll st))))"
    by (simp only: listAll_after_save [OF assms(1)] filter_sortNewestFirst)
  also have "\<dots> = sortNewestFirst [entry]"
    by (simp only: one)
  also have "\<dots> = [entry]"
    by (simp add: sortNewestFirst_def)
  finally show ?thesis .
qed

text \<open>
  Claim C1. Starting from a store whose records have pairwise different keys (the missing
  file is one), every sequence of calls of \<open>saveWatchHistory\<close> leaves at most one record
  per key (animeId, seasonNumber, episodeNumber); and when the file can be written, right
  after a record has been upserted the list holds exactly one record with its key, and that
  record is the one just upserted, whatever was stored under the key before.
\<close>

theorem saveWatchHistory_one_record_per_key:
  assumes "distinct (map entryKey (listAll st))"
  shows "distinct (map entryKey (listAll (upsertAll es st))) \<and>
         (writable st \<longrightarrow>
            filter (\<lambda>h. entryKey h = entryKey e) (listAll (upsertAll (es @ [e]) st)) = [e])"
proof
  show "distinct (map entryKey (listAll (upsertAll es st)))"
    using assms by (rule upsertAll_keeps_distinct)
  show "writable st \<longrightarrow>
          filter (\<lambda>h. entryKey h = entryKey e) (listAll (upsertAll (es @ [e]) st)) = [e]"
  proof
    assume "writable st"
    then have w: "writable (upsertAll es st)" by (simp add: upsertAll_writable)
    have d: "distinct (map entryKey (listAll (upsertAll es st)))"
      using assms by (rule upsertAll_keeps_distinct)
    show "filter (\<lambda>h. entryKey h = entryKey e) (listAll (upsertAll (es @ [e]) st)) = [e]"
      unfolding upsertAll_snoc by (rule save_exactly_one [OF w d])
  qed
qed

lemma listAll_emptyStore: "listAll emptyStore = []"
  by (simp add: listAll_def emptyStore_def)

text \<open>
  On the empty store: progress 10 and then progress 80 for the same episode leave the one
  record with progress 80.
\<close>

theorem saveWatchHistory_one_record_per_key_witness:
  "distinct (map entryKey (listAll emptyStore)) \<and> writable emptyStore \<and>
   filter (\<lambda>h. entryKey h = entryKey (sampleEntry ''A'' 1 1 2000 80))
     (listAll (upsertAll ([sampleEntry ''A'' 1 1 1000 10] @ [sampleEntry ''A'' 1 1 2000 80]) emptyStore))
     = [sampleEntry ''A'' 1 1 2000 80] \<and>
   progress (sampleEntry ''A'' 1 1 2000 80) = 80"
proof -
  have h: "distinct (map entryKey (listAll emptyStore))"
    by (simp add: listAll_emptyStore)
  have w: "writable emptyStore" by (simp add: emptyStore_def)
  show ?thesis
    using h w saveWatchHistory_one_record_per_key [OF h, of "[sampleEntry ''A'' 1 1 1000 10]" "sampleEntry ''A'' 1 1 2000 80"]
    by (simp add: sampleEntry_def)
qed

lemma upsert_example:  "listAll (upsertAll [sampleEntry ''A'' 1 1 1000 10, sampleEntry ''A'' 1 1 2000 80] emptyStore)
     = [sampleEntry ''A'' 1 1 2000 80]"
  by (simp add: upsertAll_def saveWatchHistory_def emptyStore_def listAll_def getWatchHistory_def getWatchHistory_io_def
     getWatchHistory_try_def sampleEntry_def sameEpisode_def splice1_def stringifyEntry_def processEntry_def or_zero_def sortNewestFirst_def)

text \<open>
  Claim C2. If the list has at most 50 records, it has at most 50 after a call of
  \<open>saveWatchHistory\<close>. When it has exactly 50, the file can be written and the key of the new
  record is not stored yet, the new list consists of the new record and all former records
  but the last one of the former list, and that dropped record is an oldest one: no former
  record has a smaller \<open>watchedAt\<close>.
\<close>

theorem saveWatchHistory_keeps_50:
  assumes "length (listAll st) \<le> 50"
  shows "length (listAll (fst (saveWatchHistory entry st))) \<le> 50 \<and>
         (writable st \<and> length (listAll st) = 50 \<and> entryKey entry \<notin> entryKey ` set (listAll st) \<longrightarrow>
            listAll (fst (saveWatchHistory entry st)) = sortNewestFirst (entry # butlast (listAll st)) \<and>
            (\<forall>h\<in>set (listAll st). watchedAt (last (listAll st)) \<le> watchedAt h))"
proof
  show "length (listAll (fst (saveWatchHistory entry st))) \<le> 50"
  proof (cases "writable st")
    case True
    then show ?thesis by (simp add: listAll_after_save)
  next
    case False
    then show ?thesis using assms by (simp add: saveWatchHistory_readonly)
  qed
  show "writable st \<and> length (listAll st) = 50 \<and> entryKey entry \<notin> entryKey ` set (listAll st) \<longrightarrow>
            listAll (fst (saveWatchHistory entry st)) = sortNewestFirst (entry # butlast (listAll st)) \<and>
            (\<forall>h\<in>set (listAll st). watchedAt (last (listAll st)) \<le> watchedAt h)"
  proof (intro impI conjI ballI)
    assume a: "writable st \<and> length (listAll st) = 50 \<and> entryKey entry \<notin> entryKey ` set (listAll st)"
    then have "\<forall>h\<in>set (listAll st). \<not> entryKey h = entryKey entry"
      by (metis image_eqI)
    then have "withoutExisting entry (listAll st) = listAll st"
      unfolding withoutExisting_def by (rule removeFirst_none)
    moreover have "take 49 (listAll st) = butlast (listAll st)"
      using a by (simp add: butlast_conv_take)
    ultimately show "listAll (fst (saveWatchHistory entry st)) = sortNewestFirst (entry # butlast (listAll st))"
      using a by (simp add: listAll_after_save)
  next
    fix h assume "h \<in> set (listAll st)"
    moreover have "sorted_wrt (\<lambda>a b. watchedAt b \<le> watchedAt a) (listAll st)"
    proof (cases "contents st")
      case None then show ?thesis by (simp add: listAll_def)
    next
      case (Some j)
      then show ?thesis
        by (cases j) (simp_all add: listAll_def getWatchHistory_def getWatchHistory_io_def
            getWatchHistory_try_def newest_first_sorted)
    qed
    ultimately show "watchedAt (last (listAll st)) \<le> watchedAt h"
      by (rule last_is_oldest [rotated])
  qed
qed

lemma listAll_fullStore:
  "listAll fullStore = sortNewestFirst (map (\<lambda>i. sampleEntry ''A'' 1 (int i) (int i) 0) [1..<51])"
  by (simp add: listAll_def fullStore_def getWatchHistory_Array_all o_def processEntry_stringifyEntry)

text \<open>
  A store of 50 episodes and a 51st one: the hypotheses hold and the last record is dropped.
\<close>

theorem saveWatchHistory_keeps_50_witness:
  "length (listAll fullStore) \<le> 50 \<and> writable fullStore \<and> length (listAll fullStore) = 50 \<and>
   entryKey (sampleEntry ''A'' 1 51 51 0) \<notin> entryKey ` set (listAll fullStore) \<and>
   length (listAll (fst (saveWatchHistory (sampleEntry ''A'' 1 51 51 0) fullStore))) \<le> 50 \<and>
   listAll (fst (saveWatchHistory (sampleEntry ''A'' 1 51 51 0) fullStore)) =
     sortNewestFirst (sampleEntry ''A'' 1 51 51 0 # butlast (listAll fullStore))"
proof -
  have l: "length (listAll fullStore) = 50" by (simp add: listAll_fullStore)
  have h: "length (listAll fullStore) \<le> 50" using l by simp
  have w: "writable fullStore" by (simp add: fullStore_def)
  have k: "entryKey (sampleEntry ''A'' 1 51 51 0) \<notin> entryKey ` set (listAll fullStore)"
    by (auto simp: listAll_fullStore entryKey_def sampleEntry_def)
  show ?thesis
    using l h w k saveWatchHistory_keeps_50 [OF h, of "sampleEntry ''A'' 1 51 51 0"] by blast
qed



subsection \<open>Continue-watching suggestions\<close>













section \<open>Proofs: the progress bridge and the playback result\<close>




lemma js_round_of_int [simp]: "js_round (of_int n) = n"
  by (simp add: js_round_def)



text \<open>
  Claim C7 as stated fails when both live values are known. In a session whose last
  periodic snapshot was taken at 600 of 1440 seconds and whose player stands at 100 seconds
  at shutdown (the user went back), the snapshot on file is the one at 600 seconds before
  the shutdown handler runs and reports 100 seconds, finished, after it.
\<close>

theorem shutdown_regress_counterexample:
  "snapshot_file (snapshot (fold (write_progress noInfo) (reports seekBack) (sampleWorld emptyStore []))) =
     Some (Snapshot (sampleSnapshot 600 1440 41 ''playing'')) \<and>
   snapshot_file (snapshot (run_script noInfo seekBack (sampleWorld emptyStore []))) =
     Some (Snapshot (sampleSnapshot 100 1440 6 ''finished'')) \<and>
   time_pos (shutdown_data (sampleLive 100 1440 0)
     (Some (Snapshot (sampleSnapshot 600 1440 41 ''playing'')))) = 100"
  by (simp add: run_script_def on_shutdown_def write_progress_def split_beta write_snapshot_def
      write_progress_data_def progress_values_def shutdown_data_def format_json_def
      seekBack_def noInfo_def scriptOpts_def sampleWorld_def sampleLive_def sampleSnapshot_def
      update_history_def Let_def)

text \<open>
  Claim C7, as the code has it. When the live \<open>time-pos\<close> or the live \<open>duration\<close> reads 0 at
  shutdown and the snapshot file can be read, the final snapshot reports for each of the
  two the larger of the (floored) live value and the stored one, so neither is smaller than
  what was stored. When both live values are different from 0, the file is not consulted
  and the final snapshot reports the floored live values. The status is \<open>finished\<close> in
  every case.
\<close>

theorem shutdown_keeps_stored_when_zero:
  "(time_pos_prop l = 0 \<or> duration_prop l = 0 \<longrightarrow>
      time_pos (shutdown_data l (Some (Snapshot s))) = max \<lfloor>time_pos_prop l\<rfloor> (or_zero (time_pos_j s)) \<and>
      duration_pd (shutdown_data l (Some (Snapshot s))) = max \<lfloor>duration_prop l\<rfloor> (or_zero (duration_pj s)) \<and>
      or_zero (time_pos_j s) \<le> time_pos (shutdown_data l (Some (Snapshot s))) \<and>
      or_zero (duration_pj s) \<le> duration_pd (shutdown_data l (Some (Snapshot s)))) \<and>
   (time_pos_prop l \<noteq> 0 \<and> duration_prop l \<noteq> 0 \<longrightarrow>
      time_pos (shutdown_data l f) = \<lfloor>time_pos_prop l\<rfloor> \<and>
      duration_pd (shutdown_data l f) = \<lfloor>duration_prop l\<rfloor>) \<and>
   status (shutdown_data l f) = ''finished''"
proof -
  have fm: "\<lfloor>max (x::real) (of_int n)\<rfloor> = max \<lfloor>x\<rfloor> n" for x n
    by (simp add: max_def le_floor_iff floor_le_iff) linarith
  show ?thesis
    by (auto simp: shutdown_data_def Let_def fm split: option.splits json_snapshot.splits)
qed

text \<open>
  Live values 0 and 0 over a stored snapshot of 600 of 1440 seconds: the final snapshot
  keeps 600 and 1440.
\<close>

theorem shutdown_keeps_stored_when_zero_witness:
  "time_pos_prop (sampleLive 0 0 0) = 0 \<and>
   time_pos (shutdown_data (sampleLive 0 0 0) (Some (Snapshot (sampleSnapshot 600 1440 41 ''playing'')))) = 600 \<and>
   duration_pd (shutdown_data (sampleLive 0 0 0) (Some (Snapshot (sampleSnapshot 600 1440 41 ''playing'')))) = 1440"
proof -
  have "time_pos_prop (sampleLive 0 0 0) = 0" by (simp add: sampleLive_def)
  with shutdown_keeps_stored_when_zero [of "sampleLive 0 0 0" "sampleSnapshot 600 1440 41 ''playing''"]
  show ?thesis by (simp add: sampleLive_def sampleSnapshot_def or_zero_def)
qed

section \<open>Proofs: the playback flow\<close>

lemma answers_say [simp]: "answers (say l w) = answers w"
  by (simp add: say_def)

lemma answers_saveToHistory [simp]: "answers (saveToHistory e slug ep f p t d w) = answers w"
  by (simp add: saveToHistory_def Let_def split_beta split: option.splits)

lemma answers_write_progress [simp]: "answers (write_progress opts r w) = answers w"
  by (simp add: write_progress_def split_beta)

lemma answers_fold_write_progress [simp]: "answers (fold (write_progress opts) rs w) = answers w"
  by (induction rs arbitrary: w) simp_all

lemma answers_run_script [simp]: "answers (run_script opts s w) = answers w"
  by (simp add: run_script_def on_shutdown_def)

lemma answers_playVideo_io [simp]: "answers (snd (playVideo_io e u opts w)) = answers w"
  by (simp add: playVideo_io_def Let_def)

lemma answers_autoPlayNext [simp]: "answers (fst (autoPlayNext e slug ep r d w)) = answers w"
  by (simp add: autoPlayNext_def Let_def split: option.splits)

lemma prompts_select_answers:
  "length (answers (snd (prompts_select m cs w))) \<le> length (answers w)"
  by (simp add: prompts_select_def Let_def split: list.splits)

lemma prompts_select_consumes:
  "fst (prompts_select m cs w) = Some v \<Longrightarrow>
   length (answers (snd (prompts_select m cs w))) < length (answers w)"
  by (simp add: prompts_select_def Let_def split: list.splits)

lemma handleEpisodeSelection_calls:
  assumes "handleEpisodeSelection e slug ep st w = (w', Some c)"
  shows "(\<exists>f. c = VideoPlayback slug ep f st) \<and> length (answers w') \<le> length (answers w)"
  using assms prompts_select_answers [of "''Select a fansub:''" _ w]
  by (auto simp: handleEpisodeSelection_def Let_def split_beta split: option.splits if_splits)

lemma answers_handleVideoPlayback:
  "answers (fst (handleVideoPlayback e slug ep f st w)) =
     (case getVideoUrl (catalog_of e) slug (seasonNumber_e ep) (episodeNumber_e ep) f of
        None \<Rightarrow> answers w
      | Some u \<Rightarrow> answers (snd (prompts_select ''What would you like to do?''
                                 [''play'', ''copy'', ''download'', ''browser''] w)))"
  by (simp add: handleVideoPlayback_def Let_def split_beta split: option.splits)

lemma handleVideoPlayback_call_prompted:
  "snd (handleVideoPlayback e slug ep f st w) \<noteq> None \<Longrightarrow>
   getVideoUrl (catalog_of e) slug (seasonNumber_e ep) (episodeNumber_e ep) f \<noteq> None \<and>
   fst (prompts_select ''What would you like to do?''
          [''play'', ''copy'', ''download'', ''browser''] w) \<noteq> None"
  by (simp add: handleVideoPlayback_def Let_def split_beta split: option.splits)

lemma handleVideoPlayback_consumes:
  assumes "handleVideoPlayback e slug ep f st w = (w', c)" "c \<noteq> None"
  shows "length (answers w') < length (answers w)"
proof -
  let ?p = "prompts_select ''What would you like to do?'' [''play'', ''copy'', ''download'', ''browser''] w"
  from assms have c: "snd (handleVideoPlayback e slug ep f st w) \<noteq> None" by simp
  from handleVideoPlayback_call_prompted [OF c] obtain u a where
    u: "getVideoUrl (catalog_of e) slug (seasonNumber_e ep) (episodeNumber_e ep) f = Some u"
    and a: "fst ?p = Some a" by auto
  from a have l: "length (answers (snd ?p)) < length (answers w)"
    by (rule prompts_select_consumes)
  have "answers w' = answers (fst (handleVideoPlayback e slug ep f st w))"
    using assms by simp
  also have "\<dots> = answers (snd ?p)"
    by (simp add: answers_handleVideoPlayback u)
  finally show ?thesis using l by simp
qed

function run_flow :: "env \<Rightarrow> call \<Rightarrow> world \<Rightarrow> world" where
  "run_flow e (EpisodeSelection slug episode st) w =
     (case handleEpisodeSelection e slug episode st w of
        (w', None) \<Rightarrow> w'
      | (w', Some c) \<Rightarrow> run_flow e c w')"
| "run_flow e (VideoPlayback slug episode fansubId st) w =
     (case handleVideoPlayback e slug episode fansubId st w of
        (w', None) \<Rightarrow> w'
      | (w', Some c) \<Rightarrow> run_flow e c w')"
| "run_flow e (Download slug episode u) w = w"
| "run_flow e ProcessExit w = w"
  by pat_completeness auto
termination
proof (relation "measure (\<lambda>(e, c, w). 2 * length (answers w) +
          (case c of EpisodeSelection _ _ _ \<Rightarrow> 1 | _ \<Rightarrow> 0))", goal_cases)
  case 1 show ?case by simp
next
  case (2 e slug episode st w x1 x2 c)
  then have "handleEpisodeSelection e slug episode st w = (x1, Some c)" by simp
  from handleEpisodeSelection_calls [OF this] show ?case by auto
next
  case (3 e slug episode fansubId st w x1 x2 c)
  then have "handleVideoPlayback e slug episode fansubId st w = (x1, Some c)" by simp
  from handleVideoPlayback_consumes [OF this] show ?case by (auto split: call.splits)
qed

lemma find_listed:
  "find (\<lambda>x. episodeNumber_e x = k) (map (listedEpisode slug s) xs) =
     (if k \<in> set xs then Some (listedEpisode slug s k) else None)"
  by (induction xs) (auto simp: listedEpisode_def)

lemma next_in_listing:
  "find (\<lambda>x. episodeNumber_e x = k) (getAnimeEpisodes cat slug s) = Some n \<longleftrightarrow>
     (\<exists>a season. getAnimeDetail cat slug = Some a \<and>
        find (\<lambda>x. season_number_s x = s) (seasons a) = Some season \<and> hasEpisode season \<and>
        1 \<le> k \<and> k \<le> episode_count season \<and> n = listedEpisode slug s k)"
  by (auto simp: getAnimeEpisodes_def find_listed split: option.splits)

lemma snd_autoPlayNext:
  "snd (autoPlayNext e slug ep r d w) =
     (if autoPlayNextEpisode (config e) \<and> 85 \<le> progress_pb r \<and>
         (case d of None \<Rightarrow> False | Some x \<Rightarrow> hasNextEpisode (episodeData x))
      then map_option (\<lambda>n. EpisodeSelection slug n None)
             (find (\<lambda>x. episodeNumber_e x = episodeNumber_e ep + 1)
                (getAnimeEpisodes (catalog_of e) slug (seasonNumber_e ep)))
      else None)"
  by (simp add: autoPlayNext_def Let_def split: option.splits)

lemma prompts_select_pick:
  "answers w = Some i # rest \<Longrightarrow> i < length cs \<Longrightarrow>
   prompts_select m cs w = (Some (cs ! i), w\<lparr>events := events w @ [Prompted m], answers := rest\<rparr>)"
  by (simp add: prompts_select_def Let_def)

lemma handleVideoPlayback_play:
  assumes "getVideoUrl (catalog_of e) slug (seasonNumber_e ep) (episodeNumber_e ep) f = Some u"
    and "answers w = Some 0 # rest"
  shows "\<exists>opts w2 w4. handleVideoPlayback e slug ep f st w =
           autoPlayNext e slug ep (fst (playVideo_io e u opts w2))
             (getEpisodeDetail (catalog_of e) slug (seasonNumber_e ep) (episodeNumber_e ep)) w4"
  using assms
  by (simp add: handleVideoPlayback_def Let_def split_beta prompts_select_pick [where i = 0 and rest = rest]) blast

text \<open>
  Claim C3, as the code has it. After the final history update of a playback, the flow goes
  on to another call exactly when \<open>autoPlayNextEpisode\<close> is set, the progress of the playback
  result is at least 85, the details of the episode just played were found and say
  \<open>hasNextEpisode\<close>, and the listing of the season has an episode numbered one more (the
  anime and the season are found, the season has episodes, and the number is within its
  \<open>episode_count\<close>); the call is then \<open>handleEpisodeSelection\<close> for that episode, with no start
  time. The \<open>play\<close> case of \<open>handleVideoPlayback\<close> ends with exactly this decision, taken on
  the result that \<open>playVideo\<close> returned.
\<close>

theorem autoPlayNext_iff:
  "(snd (autoPlayNext e slug ep r d w) = Some c \<longleftrightarrow>
      autoPlayNextEpisode (config e) \<and> 85 \<le> progress_pb r \<and>
      (\<exists>x. d = Some x \<and> hasNextEpisode (episodeData x)) \<and>
      (\<exists>a season. getAnimeDetail (catalog_of e) slug = Some a \<and>
         find (\<lambda>x. season_number_s x = seasonNumber_e ep) (seasons a) = Some season \<and>
         hasEpisode season \<and> 0 \<le> episodeNumber_e ep \<and> episodeNumber_e ep + 1 \<le> episode_count season \<and>
         c = EpisodeSelection slug (listedEpisode slug (seasonNumber_e ep) (episodeNumber_e ep + 1)) None)) \<and>
   (getVideoUrl (catalog_of e) slug (seasonNumber_e ep) (episodeNumber_e ep) f = Some u \<and>
    answers w = Some 0 # rest \<longrightarrow>
      (\<exists>opts w2 w4. handleVideoPlayback e slug ep f st w =
           autoPlayNext e slug ep (fst (playVideo_io e u opts w2))
             (getEpisodeDetail (catalog_of e) slug (seasonNumber_e ep) (episodeNumber_e ep)) w4))"
proof (intro conjI impI)
  show "snd (autoPlayNext e slug ep r d w) = Some c \<longleftrightarrow>
      autoPlayNextEpisode (config e) \<and> 85 \<le> progress_pb r \<and>
      (\<exists>x. d = Some x \<and> hasNextEpisode (episodeData x)) \<and>
      (\<exists>a season. getAnimeDetail (catalog_of e) slug = Some a \<and>
         find (\<lambda>x. season_number_s x = seasonNumber_e ep) (seasons a) = Some season \<and>
         hasEpisode season \<and> 0 \<le> episodeNumber_e ep \<and> episodeNumber_e ep + 1 \<le> episode_count season \<and>
         c = EpisodeSelection slug (listedEpisode slug (seasonNumber_e ep) (episodeNumber_e ep + 1)) None)"
    unfolding snd_autoPlayNext
    using next_in_listing [of "episodeNumber_e ep + 1" "catalog_of e" slug "seasonNumber_e ep"]
    by (cases d) (auto split: if_splits)
next
  assume "getVideoUrl (catalog_of e) slug (seasonNumber_e ep) (episodeNumber_e ep) f = Some u \<and>
    answers w = Some 0 # rest"
  then show "\<exists>opts w2 w4. handleVideoPlayback e slug ep f st w =
           autoPlayNext e slug ep (fst (playVideo_io e u opts w2))
             (getEpisodeDetail (catalog_of e) slug (seasonNumber_e ep) (episodeNumber_e ep)) w4"
    using handleVideoPlayback_play by blast
qed

lemma sampleEpisode_sel [simp]:
  "seasonNumber_e (sampleEpisode n) = 1" "episodeNumber_e (sampleEpisode n) = n"
  by (simp_all add: sampleEpisode_def listedEpisode_def)

text \<open>
  With the flag set and a next episode in the catalog, progress 90 selects episode 2 and
  progress 80 does not.
\<close>

theorem autoPlayNext_iff_witness:
  "snd (autoPlayNext (sampleEnv True DEFAULT_CONFIG noPlayer) ''slug'' (sampleEpisode 1)
          (sampleResult 90)
          (getEpisodeDetail (sampleCatalog True) ''slug'' 1 1) (sampleWorld emptyStore [])) =
     Some (EpisodeSelection ''slug'' (listedEpisode ''slug'' 1 2) None) \<and>
   snd (autoPlayNext (sampleEnv True DEFAULT_CONFIG noPlayer) ''slug'' (sampleEpisode 1)
          (sampleResult 80)
          (getEpisodeDetail (sampleCatalog True) ''slug'' 1 1) (sampleWorld emptyStore [])) = None"
proof -
  let ?e = "sampleEnv True DEFAULT_CONFIG noPlayer"
  let ?d = "getEpisodeDetail (sampleCatalog True) ''slug'' 1 1"
  let ?w = "sampleWorld emptyStore []"
  have 1: "snd (autoPlayNext ?e ''slug'' (sampleEpisode 1) (sampleResult 90) ?d ?w) =
             Some (EpisodeSelection ''slug'' (listedEpisode ''slug'' 1 2) None)"
    using autoPlayNext_iff [of ?e "''slug''" "sampleEpisode 1" "sampleResult 90" ?d ?w
        "EpisodeSelection ''slug'' (listedEpisode ''slug'' 1 2) None"]
    by (simp add: sampleEnv_def sampleCatalog_def sampleAnime_def DEFAULT_CONFIG_def
        sampleResult_def)
  have "snd (autoPlayNext ?e ''slug'' (sampleEpisode 1) (sampleResult 80) ?d ?w) \<noteq> Some c" for c
    using autoPlayNext_iff [of ?e "''slug''" "sampleEpisode 1" "sampleResult 80" ?d ?w c]
    by (simp add: sampleResult_def)
  then have 2: "snd (autoPlayNext ?e ''slug'' (sampleEpisode 1) (sampleResult 80) ?d ?w) = None"
    by (cases "snd (autoPlayNext ?e ''slug'' (sampleEpisode 1) (sampleResult 80) ?d ?w)") auto
  from 1 2 show ?thesis by simp
qed

lemma getVideoUrl_sample:
  "getVideoUrl (sampleCatalog b) ''slug'' 1 n ''f1'' \<noteq> None"
  by (simp add: getVideoUrl_def sampleCatalog_def Let_def)

lemma say_sel [simp]:
  "store (say l w) = store w" "dates (say l w) = dates w" "sessions (say l w) = sessions w"
  "snapshot (say l w) = snapshot w"
  by (simp_all add: say_def)

lemma saveToHistory_found:
  assumes "getAnimeDetail (catalog_of e) slug = Some a"
    and "getEpisodeDetail (catalog_of e) slug (seasonNumber_e ep) (episodeNumber_e ep) = Some d"
  shows "store (saveToHistory e slug ep f p t dur w) =
           fst (saveWatchHistory (historyEntry a d slug ep f (clock e (dates w)) p t dur) (store w))"
    and "dates (saveToHistory e slug ep f p t dur w) = Suc (dates w)"
    and "sessions (saveToHistory e slug ep f p t dur w) = sessions w"
  using assms by (simp_all add: saveToHistory_def split_beta)

lemma getVideoUrl_SomeD:
  "getVideoUrl cat slug s n f = Some u \<Longrightarrow> \<exists>d. getEpisodeDetail cat slug s n = Some d"
  by (simp add: getVideoUrl_def split: option.splits)

lemma historyEntry_sel [simp]:
  "entryKey (historyEntry a d slug ep f now p t dur) = (id_a a, seasonNumber_e ep, episodeNumber_e ep)"
  "progress (historyEntry a d slug ep f now p t dur) = max 0 (min 100 p)"
  "timePos (historyEntry a d slug ep f now p t dur) = max 0 t"
  "duration (historyEntry a d slug ep f now p t dur) = max 0 dur"
  "watchedAt (historyEntry a d slug ep f now p t dur) = now"
  by (simp_all add: historyEntry_def entryKey_def Let_def)

lemma handleVideoPlayback_copy:
  assumes "getVideoUrl (catalog_of e) slug (seasonNumber_e ep) (episodeNumber_e ep) f = Some u"
    and "answers w = Some 1 # rest"
  shows "handleVideoPlayback e slug ep f st w =
           (saveToHistory e slug ep f 100 0 0
              (say ''Copy the URL above to play in your preferred player.''
                 (w\<lparr>events := events w @ [Prompted ''What would you like to do?''], answers := rest\<rparr>)),
            None)"
  using assms
  by (simp add: handleVideoPlayback_def Let_def prompts_select_pick [where i = 1 and rest = rest])

text \<open>
  Claim C10. When the video URL is found, the anime's details are found, the user picks
  \<open>Copy URL to clipboard\<close>, the history file can be written and its records have pairwise
  different keys, then afterwards the list holds exactly one record for the episode, with
  progress 100, \<open>timePos\<close> 0, \<open>duration\<close> 0 and the current time; the player has not been
  launched and the flow ends there.
\<close>

theorem copy_marks_watched:
  assumes "getVideoUrl (catalog_of e) slug (seasonNumber_e ep) (episodeNumber_e ep) f = Some u"
    and "getAnimeDetail (catalog_of e) slug = Some a"
    and "answers w = Some 1 # rest"
    and "writable (store w)"
    and "distinct (map entryKey (listAll (store w)))"
  shows "(\<exists>entry.
           filter (\<lambda>h. entryKey h = (id_a a, seasonNumber_e ep, episodeNumber_e ep))
             (listAll (store (fst (handleVideoPlayback e slug ep f st w)))) = [entry] \<and>
           progress entry = 100 \<and> timePos entry = 0 \<and> duration entry = 0 \<and>
           watchedAt entry = clock e (dates w)) \<and>
         sessions (fst (handleVideoPlayback e slug ep f st w)) = sessions w \<and>
         snd (handleVideoPlayback e slug ep f st w) = None"
proof -
  from assms(1) obtain d where
    d: "getEpisodeDetail (catalog_of e) slug (seasonNumber_e ep) (episodeNumber_e ep) = Some d"
    by (blast dest: getVideoUrl_SomeD)
  let ?w1 = "say ''Copy the URL above to play in your preferred player.''
                 (w\<lparr>events := events w @ [Prompted ''What would you like to do?''], answers := rest\<rparr>)"
  let ?entry = "historyEntry a d slug ep f (clock e (dates w)) 100 0 0"
  have c: "handleVideoPlayback e slug ep f st w = (saveToHistory e slug ep f 100 0 0 ?w1, None)"
    using assms(1,3) by (rule handleVideoPlayback_copy)
  have s: "store (fst (handleVideoPlayback e slug ep f st w)) = fst (saveWatchHistory ?entry (store w))"
    using saveToHistory_found(1) [OF assms(2) d, of f 100 0 0 ?w1] by (simp add: c)
  have "filter (\<lambda>h. entryKey h = entryKey ?entry)
          (listAll (fst (saveWatchHistory ?entry (store w)))) = [?entry]"
    using assms(4,5) by (rule save_exactly_one)
  then have "filter (\<lambda>h. entryKey h = (id_a a, seasonNumber_e ep, episodeNumber_e ep))
             (listAll (store (fst (handleVideoPlayback e slug ep f st w)))) = [?entry]"
    by (simp add: s)
  then have 1: "\<exists>entry.
           filter (\<lambda>h. entryKey h = (id_a a, seasonNumber_e ep, episodeNumber_e ep))
             (listAll (store (fst (handleVideoPlayback e slug ep f st w)))) = [entry] \<and>
           progress entry = 100 \<and> timePos entry = 0 \<and> duration entry = 0 \<and>
           watchedAt entry = clock e (dates w)"
    by (intro exI [of _ ?entry]) simp
  have 2: "sessions (fst (handleVideoPlayback e slug ep f st w)) = sessions w"
    using saveToHistory_found(3) [OF assms(2) d, of f 100 0 0 ?w1] by (simp add: c)
  have 3: "snd (handleVideoPlayback e slug ep f st w) = None"
    by (simp add: c)
  from 1 2 3 show ?thesis by blast
qed

lemma listAll_partialStore: "listAll partialStore = [sampleEntry ''A'' 1 1 500 40]"
  by (simp add: listAll_def partialStore_def getWatchHistory_Array_all processEntry_stringifyEntry
      sortNewestFirst_def)

text \<open>
  An episode stored with progress 40 stands at progress 100 after its URL has been copied.
\<close>

theorem copy_marks_watched_witness:
  "map progress (listAll partialStore) = [40] \<and>
   map progress (filter (\<lambda>h. entryKey h = (''A'', 1, 1))
     (listAll (store (fst (handleVideoPlayback (sampleEnv True DEFAULT_CONFIG noPlayer) ''slug''
        (sampleEpisode 1) ''f1'' None (sampleWorld partialStore [Some 1])))))) = [100]"
proof -
  let ?e = "sampleEnv True DEFAULT_CONFIG noPlayer"
  let ?w = "sampleWorld partialStore [Some 1]"
  obtain u where u: "getVideoUrl (catalog_of ?e) ''slug'' (seasonNumber_e (sampleEpisode 1))
      (episodeNumber_e (sampleEpisode 1)) ''f1'' = Some u"
    using getVideoUrl_sample [of True 1] by (auto simp: sampleEnv_def)
  have a: "getAnimeDetail (catalog_of ?e) ''slug'' = Some sampleAnime"
    by (simp add: sampleEnv_def sampleCatalog_def)
  have ans: "answers ?w = Some 1 # []" by (simp add: sampleWorld_def)
  have wr: "writable (store ?w)" by (simp add: sampleWorld_def partialStore_def)
  have dk: "distinct (map entryKey (listAll (store ?w)))"
    by (simp add: sampleWorld_def listAll_partialStore)
  from copy_marks_watched [OF u a ans wr dk, of None]
  show ?thesis by (auto simp: listAll_partialStore sampleEntry_def sampleAnime_def)
qed

lemma env_without_flag [simp]:
  "catalog_of (e\<lparr>config := c\<rparr>) = catalog_of e" "clock (e\<lparr>config := c\<rparr>) = clock e"
  "player (e\<lparr>config := c\<rparr>) = player e"
  by simp_all





lemma write_progress_sel [simp]:
  "dates (write_progress opts r w) = dates w" "sessions (write_progress opts r w) = sessions w"
  by (simp_all add: write_progress_def split_beta)

lemma fold_write_progress_sel [simp]:
  "dates (fold (write_progress opts) rs w) = dates w"
  by (induction rs arbitrary: w) simp_all

lemma dates_playVideo_io [simp]: "dates (snd (playVideo_io e u opts w)) = dates w"
  by (simp add: playVideo_io_def Let_def run_script_def on_shutdown_def)

lemma dates_autoPlayNext [simp]: "dates (fst (autoPlayNext e slug ep r d w)) = dates w"
  by (simp add: autoPlayNext_def Let_def split: option.splits)

lemma store_autoPlayNext [simp]: "store (fst (autoPlayNext e slug ep r d w)) = store w"
  by (simp add: autoPlayNext_def Let_def split: option.splits)





lemma sample_lookups:
  "getAnimeDetail (catalog_of (sampleEnv b c s)) ''slug'' = Some sampleAnime"
  "getEpisodeDetail (catalog_of (sampleEnv b c s)) ''slug'' k n =
     Some \<lparr>episodeData = \<lparr>fansub = \<lparr>id_f = ''f1'', name_f = ''Subs''\<rparr>,
                            files = [720, 1080], hasNextEpisode = b\<rparr>,
            fansubs = [\<lparr>id_f = ''f1'', name_f = ''Subs''\<rparr>]\<rparr>"
  "config (sampleEnv b c s) = c" "player (sampleEnv b c s) n' = s"
  "clock (sampleEnv b c s) i = 1000 + int i"
  by (simp_all add: sampleEnv_def sampleCatalog_def)

lemma sample_url:
  "\<exists>u. getVideoUrl (catalog_of (sampleEnv b c s)) ''slug'' 1 n ''f1'' = Some u"
  using getVideoUrl_sample [of b n] by (auto simp: sampleEnv_def)



lemma sessions_saveToHistory [simp]: "sessions (saveToHistory e slug ep f p t d w) = sessions w"
  by (simp add: saveToHistory_def split_beta split: option.splits)

lemma sessions_fold_write_progress [simp]: "sessions (fold (write_progress opts) rs w) = sessions w"
  by (induction rs arbitrary: w) simp_all

lemma sessions_playVideo_io [simp]: "sessions (snd (playVideo_io e u opts w)) = Suc (sessions w)"
  by (simp add: playVideo_io_def Let_def run_script_def on_shutdown_def)

lemma sessions_autoPlayNext [simp]: "sessions (fst (autoPlayNext e slug ep r d w)) = sessions w"
  by (simp add: autoPlayNext_def Let_def split: option.splits)

lemma snapshot_saveToHistory [simp]: "snapshot (saveToHistory e slug ep f p t d w) = snapshot w"
  by (simp add: saveToHistory_def split_beta split: option.splits)

lemma handleVideoPlayback_play_result:
  assumes "getVideoUrl (catalog_of e) slug (seasonNumber_e ep) (episodeNumber_e ep) f = Some u"
    and "answers w = Some 0 # rest"
  shows "\<exists>opts w2 w4. handleVideoPlayback e slug ep f st w =
           autoPlayNext e slug ep (fst (playVideo_io e u opts w2))
             (getEpisodeDetail (catalog_of e) slug (seasonNumber_e ep) (episodeNumber_e ep)) w4 \<and>
           snapshot w2 = snapshot w \<and> sessions w2 = sessions w"
proof -
  let ?w1 = "w\<lparr>events := events w @ [Prompted ''What would you like to do?''], answers := rest\<rparr>"
  let ?d = "getEpisodeDetail (catalog_of e) slug (seasonNumber_e ep) (episodeNumber_e ep)"
  let ?fansub = "case ?d of None \<Rightarrow> None | Some d \<Rightarrow> find (\<lambda>x. id_f x = f) (fansubs d)"
  let ?opts = "\<lparr>startTime = (case st of None \<Rightarrow> None | Some t \<Rightarrow> if t \<noteq> 0 then Some t else None),
      episodeInfo = (case getAnimeDetail (catalog_of e) slug of
          None \<Rightarrow> None
        | Some a \<Rightarrow> Some \<lparr>anime_id = id_a a,
            anime_title = or_str (english a) (or_str (turkish a) (romaji a)),
            anime_slug = slug, season_number = seasonNumber_e ep,
            episode_number = episodeNumber_e ep, episode_title = title ep,
            fansub_name = or_str (case ?fansub of None \<Rightarrow> [] | Some x \<Rightarrow> name_f x) ''Unknown''\<rparr>)\<rparr>"
  let ?w2 = "saveToHistory e slug ep f 0 0 0 ?w1"
  let ?r = "fst (playVideo_io e u ?opts ?w2)"
  let ?w4 = "saveToHistory e slug ep f (progress_pb ?r) (timePos_pb ?r) (duration_pb ?r)
               (snd (playVideo_io e u ?opts ?w2))"
  have "handleVideoPlayback e slug ep f st w = autoPlayNext e slug ep ?r ?d ?w4"
    using assms
    by (simp add: handleVideoPlayback_def Let_def split_beta
        prompts_select_pick [where i = 0 and rest = rest])
  moreover have "snapshot ?w2 = snapshot w" "sessions ?w2 = sessions w"
    by simp_all
  ultimately show ?thesis by blast
qed

text \<open>
  Claim C3 as stated fails in two ways. With the flag set, progress 90 and episode 2 in the
  season's listing, nothing is selected when the episode's details do not say
  \<open>hasNextEpisode\<close>. And when episode 2 is selected, it is not played without a prompt: with
  no further answer from the user the flow has launched the player once and stands at the
  prompt for the action.
\<close>

theorem autoPlayNext_counterexample:
  "autoPlayNextEpisode (config (sampleEnv False DEFAULT_CONFIG noPlayer)) \<and>
   85 \<le> progress_pb (sampleResult 90) \<and>
   find (\<lambda>x. episodeNumber_e x = episodeNumber_e (sampleEpisode 1) + 1)
     (getAnimeEpisodes (catalog_of (sampleEnv False DEFAULT_CONFIG noPlayer)) ''slug'' 1) =
     Some (sampleEpisode 2) \<and>
   snd (autoPlayNext (sampleEnv False DEFAULT_CONFIG noPlayer) ''slug'' (sampleEpisode 1)
          (sampleResult 90)
          (getEpisodeDetail (catalog_of (sampleEnv False DEFAULT_CONFIG noPlayer)) ''slug'' 1 1)
          (sampleWorld emptyStore [])) = None \<and>
   sessions (run_flow (sampleEnv True DEFAULT_CONFIG (watchedTo 1296))
               (VideoPlayback ''slug'' (sampleEpisode 1) ''f1'' None)
               (sampleWorld emptyStore [Some 0])) = 1 \<and>
   last (events (run_flow (sampleEnv True DEFAULT_CONFIG (watchedTo 1296))
               (VideoPlayback ''slug'' (sampleEpisode 1) ''f1'' None)
               (sampleWorld emptyStore [Some 0]))) = Prompted ''What would you like to do?''"
proof -
  let ?n = "sampleEnv False DEFAULT_CONFIG noPlayer"
  let ?e = "sampleEnv True DEFAULT_CONFIG (watchedTo 1296)"
  let ?w = "sampleWorld emptyStore [Some 0]"
  have 1: "autoPlayNextEpisode (config ?n)" by (simp add: sample_lookups DEFAULT_CONFIG_def)
  have 2: "85 \<le> progress_pb (sampleResult 90)" by (simp add: sampleResult_def)
  have 3: "find (\<lambda>x. episodeNumber_e x = episodeNumber_e (sampleEpisode 1) + 1)
     (getAnimeEpisodes (catalog_of ?n) ''slug'' 1) = Some (sampleEpisode 2)"
    by (simp add: next_in_listing sample_lookups sampleAnime_def sampleEpisode_def listedEpisode_def)
  have 4: "snd (autoPlayNext ?n ''slug'' (sampleEpisode 1) (sampleResult 90)
          (getEpisodeDetail (catalog_of ?n) ''slug'' 1 1) (sampleWorld emptyStore [])) = None"
    by (simp add: snd_autoPlayNext sample_lookups)
  let ?run = "run_flow ?e (VideoPlayback ''slug'' (sampleEpisode 1) ''f1'' None) ?w"
  let ?w1 = "fst (handleVideoPlayback ?e ''slug'' (sampleEpisode 1) ''f1'' None ?w)"
  let ?w2 = "say (''Using fansub: '' @ ''Subs'') ?w1"
  let ?w3 = "?w2\<lparr>events := events ?w2 @ [Prompted ''What would you like to do?'']\<rparr>"
  obtain u where u: "getVideoUrl (catalog_of ?e) ''slug'' 1 1 ''f1'' = Some u"
    using sample_url by blast
  obtain u2 where u2: "getVideoUrl (catalog_of ?e) ''slug'' 1 2 ''f1'' = Some u2"
    using sample_url by blast
  obtain opts w2 w4 where
    h: "handleVideoPlayback ?e ''slug'' (sampleEpisode 1) ''f1'' None ?w =
          autoPlayNext ?e ''slug'' (sampleEpisode 1) (fst (playVideo_io ?e u opts w2))
            (getEpisodeDetail (catalog_of ?e) ''slug'' 1 1) w4"
    and w2: "snapshot w2 = snapshot ?w"
    using handleVideoPlayback_play_result [where e = ?e and slug = "''slug''" and ep = "sampleEpisode 1"
        and f = "''f1''" and u = u and w = ?w and rest = "[]" and st = None] u
    by (auto simp: sampleWorld_def)
  have "snapshot_file (snapshot w2) = None \<and> snapshot_writable (snapshot w2)"
    by (simp add: w2 sampleWorld_def)
  then have r: "fst (playVideo_io ?e u opts w2) =
      \<lparr>progress_pb = 90, timePos_pb = 1296, duration_pb = 1440\<rparr>"
    by (simp add: playVideo_io_def Let_def sample_lookups watchedTo_def run_script_def
        on_shutdown_def write_progress_def split_beta write_snapshot_def shutdown_data_def
        write_progress_data_def progress_values_def sampleLive_def format_json_def or_zero_def
        playVideo_def readFinalProgress_def js_round_def)
  have c1: "snd (handleVideoPlayback ?e ''slug'' (sampleEpisode 1) ''f1'' None ?w) =
              Some (EpisodeSelection ''slug'' (sampleEpisode 2) None)"
    unfolding h r
    by (simp add: snd_autoPlayNext sample_lookups DEFAULT_CONFIG_def find_listed
        getAnimeEpisodes_def sampleAnime_def sampleEpisode_def listedEpisode_def)
  have a1: "answers ?w1 = []"
    using u by (simp add: answers_handleVideoPlayback prompts_select_def sampleWorld_def)
  have s1: "sessions ?w1 = 1"
    using u
    by (simp add: handleVideoPlayback_def Let_def split_beta
        prompts_select_pick [where i = 0 and rest = "[]"] sampleWorld_def [of emptyStore "[Some 0]"])
  have step1: "?run = run_flow ?e (EpisodeSelection ''slug'' (sampleEpisode 2) None) ?w1"
    using c1 by (simp add: split_beta)
  have step2: "run_flow ?e (EpisodeSelection ''slug'' (sampleEpisode 2) None) ?w1 =
                 run_flow ?e (VideoPlayback ''slug'' (sampleEpisode 2) ''f1'' None) ?w2"
    by (simp add: handleEpisodeSelection_def sample_lookups)
  have step3: "run_flow ?e (VideoPlayback ''slug'' (sampleEpisode 2) ''f1'' None) ?w2 = ?w3"
    using u2 a1
    by (simp add: handleVideoPlayback_def Let_def prompts_select_def)
  have fin: "?run = ?w3"
    by (simp only: step1 step2 step3)
  have 5: "sessions ?run = 1"
    unfolding fin by (simp add: s1)
  have 6: "last (events ?run) = Prompted ''What would you like to do?''"
    unfolding fin by simp
  from 1 2 3 4 5 6 show ?thesis by blast
qed

subsection \<open>The keys of the history stay different along the flow\<close>

text \<open>
  Both writers of the history file, \<open>saveWatchHistory\<close> and the script's \<open>update_history\<close>,
  keep the keys pairwise different, and so does every run of the flow.
\<close>

lemma entryKey_processEntry: "entryKey (processEntry j) = jsonKey j"
  by (simp add: entryKey_def processEntry_def jsonKey_def)

lemma listAll_keys_distinct:
  "contents st = Some (Array js) \<Longrightarrow>
   distinct (map entryKey (listAll st)) = distinct (map jsonKey js)"
  by (simp add: listAll_def getWatchHistory_Array_all distinct_keys_sortNewestFirst o_def
      entryKey_processEntry)

lemma update_first_keys:
  "(\<And>x. k (g x) = k x) \<Longrightarrow> update_first P g xs = Some ys \<Longrightarrow> map k ys = map k xs"
  by (induction xs arbitrary: ys) (auto split: if_splits option.splits)

lemma update_first_None: "update_first P g xs = None \<longleftrightarrow> (\<forall>x\<in>set xs. \<not> P x)"
  by (induction xs) (auto split: option.splits)

lemma update_history_keeps_distinct:
  assumes "distinct (map entryKey (listAll st))"
  shows "distinct (map entryKey (listAll (update_history opts now t d p st)))"
proof (cases "anime_id opts = [] \<or> \<not> writable st")
  case True
  then show ?thesis using assms by (auto simp: update_history_def Let_def)
next
  case False
  let ?P = "\<lambda>entry. animeId_j entry = anime_id opts \<and> seasonNumber_j entry = season_number opts \<and>
                         episodeNumber_j entry = episode_number opts"
  let ?g = "\<lambda>entry. entry\<lparr>progress_j := \<lfloor>p\<rfloor>, timePos_j := Some \<lfloor>t\<rfloor>,
                               duration_j := Some \<lfloor>d\<rfloor>, watchedAt_j := 1000 * now\<rparr>"
  let ?js = "case contents st of Some (Array js) \<Rightarrow> js | _ \<Rightarrow> []"
  have djs: "distinct (map jsonKey ?js)"
    using assms listAll_keys_distinct [of st]
    by (auto split: option.splits json_history.splits)
  show ?thesis
  proof (cases "update_first ?P ?g ?js")
    case None
    then have "\<forall>x\<in>set ?js. \<not> ?P x" by (simp add: update_first_None)
    then have "(anime_id opts, season_number opts, episode_number opts) \<notin> jsonKey ` set ?js"
      by (auto simp: jsonKey_def)
    with djs None False show ?thesis
      by (simp add: update_history_def Let_def listAll_keys_distinct jsonKey_def)
  next
    case (Some ys)
    have "map jsonKey ys = map jsonKey ?js"
      by (rule update_first_keys [OF _ Some]) (simp add: jsonKey_def)
    with djs Some False show ?thesis
      by (simp add: update_history_def Let_def listAll_keys_distinct)
  qed
qed

lemma keysDistinct_cong: "store w' = store w \<Longrightarrow> keysDistinct w' = keysDistinct w"
  by (simp add: keysDistinct_def)

lemma saveToHistory_keeps_distinct:
  "keysDistinct w \<Longrightarrow> keysDistinct (saveToHistory e slug ep f p t d w)"
  by (auto simp: saveToHistory_def keysDistinct_def split_beta save_keeps_distinct
      split: option.splits)

lemma write_progress_keeps_distinct:
  "keysDistinct w \<Longrightarrow> keysDistinct (write_progress opts r w)"
  by (simp add: write_progress_def keysDistinct_def split_beta update_history_keeps_distinct)

lemma run_script_keeps_distinct:
  "keysDistinct w \<Longrightarrow> keysDistinct (run_script opts s w)"
proof -
  have "keysDistinct w \<Longrightarrow> keysDistinct (fold (write_progress opts) rs w)" for rs
    by (induction rs arbitrary: w) (simp_all add: write_progress_keeps_distinct)
  then show "keysDistinct w \<Longrightarrow> keysDistinct (run_script opts s w)"
    by (simp add: run_script_def on_shutdown_def keysDistinct_def)
qed

lemma playVideo_io_keeps_distinct:
  "keysDistinct w \<Longrightarrow> keysDistinct (snd (playVideo_io e u opts w))"
proof -
  assume k: "keysDistinct w"
  let ?w1 = "w\<lparr>sessions := Suc (sessions w), events := events w @ [PlayVideo u opts]\<rparr>"
  have "keysDistinct ?w1" using k by (simp add: keysDistinct_def)
  then show ?thesis
    by (simp add: playVideo_io_def Let_def run_script_keeps_distinct)
qed

lemma prompts_select_store [simp]: "store (snd (prompts_select m cs w)) = store w"
  by (simp add: prompts_select_def Let_def split: list.splits)

lemma handleVideoPlayback_keeps_distinct:
  assumes "keysDistinct w"
  shows "keysDistinct (fst (handleVideoPlayback e slug ep f st w))"
proof -
  let ?p = "prompts_select ''What would you like to do?'' [''play'', ''copy'', ''download'', ''browser''] w"
  have k1: "keysDistinct (snd ?p)"
    using assms by (simp add: keysDistinct_def)
  have k2: "keysDistinct (say l (snd ?p))" for l
    using assms by (simp add: keysDistinct_def)
  have k3: "keysDistinct (say l w)" for l
    using assms by (simp add: keysDistinct_def)
  have k4: "keysDistinct (fst (autoPlayNext e slug ep r d w')) = keysDistinct w'" for r d w'
    by (simp add: keysDistinct_def)
  show ?thesis
    by (simp add: handleVideoPlayback_def Let_def split_beta k1 k2 k3 k4
        saveToHistory_keeps_distinct playVideo_io_keeps_distinct split: option.splits)
qed

lemma handleEpisodeSelection_store [simp]:
  "store (fst (handleEpisodeSelection e slug ep st w)) = store w"
  by (simp add: handleEpisodeSelection_def Let_def split_beta split: option.splits)

lemma run_flow_keeps_distinct:
  "keysDistinct w \<Longrightarrow> keysDistinct (run_flow e c w)"
proof (induction e c w rule: run_flow.induct)
  case (1 e slug episode st w)
  have k: "keysDistinct (fst (handleEpisodeSelection e slug episode st w))"
    using "1.prems" by (simp add: keysDistinct_def)
  show ?case
  proof (cases "handleEpisodeSelection e slug episode st w")
    case (Pair w' c)
    with k "1.IH" show ?thesis
      by (cases c) auto
  qed
next
  case (2 e slug episode fansubId st w)
  have k: "keysDistinct (fst (handleVideoPlayback e slug episode fansubId st w))"
    using "2.prems" by (rule handleVideoPlayback_keeps_distinct)
  show ?case
  proof (cases "handleVideoPlayback e slug episode fansubId st w")
    case (Pair w' c)
    with k "2.IH" show ?thesis
      by (cases c) auto
  qed
qed simp_all

end
